theory Spec2Isabelle
  imports Complex_Main
begin

section \<open>Data model\<close>

text \<open>
  The rows of the four tables the orchestrators touch (\<^verbatim>\<open>app/models\<close>).  A UUID is a
  natural number.  A Python \<^verbatim>\<open>str\<close> is a \<open>string\<close> whose elements each stand for one
  character, so that \<open>take n\<close> is the slice \<^verbatim>\<open>[:n]\<close>.  Integer columns are unbounded
  \<open>int\<close>s, a nullable column is an \<open>option\<close>, a timestamp is a natural number.  Of the
  timestamps only those that the services assign are kept: \<open>updated_at\<close> is written where
  \<^verbatim>\<open>create_case\<close> and \<^verbatim>\<open>update_case\<close> write it, the column defaults of the other
  timestamps are left out.
\<close>

type_synonym uuid = nat

record Case =
  case_number :: string
  title :: string
  description :: "string option"
  case_type :: string
  jurisdiction :: string
  created_by :: uuid
  status :: string
  current_round :: int
  max_rounds :: int
  updated_at :: "nat option"
  finalized_at :: "nat option"

record Document =
  doc_case_id :: uuid
  doc_side :: string
  doc_title :: string
  file_type :: string
  full_text :: "string option"
  doc_status :: string

record Argument =
  arg_case_id :: uuid
  arg_round :: int
  arg_side :: string
  argument_text :: string
  submitted_by :: uuid

text \<open>
  A value decoded by \<^verbatim>\<open>json.loads\<close>.  An object keeps its members in document order;
  Python's dict keeps the last of two members with the same key.
\<close>

datatype json =
    JNull
  | JBool bool
  | JNum rat
  | JStr string
  | JArr "json list"
  | JObj "(string \<times> json) list"

record Verdict =
  verdict_case_id :: uuid
  verdict_round :: int
  verdict_json :: json
  model_used :: string
  tokens_used :: "int option"

text \<open>
  The database session, with one ghost field: \<open>oracle_calls\<close> counts the invocations of
  \<^verbatim>\<open>client.chat.completions.create\<close>.
\<close>

record store =
  cases :: "uuid \<rightharpoonup> Case"
  arguments :: "Argument list"
  verdicts :: "Verdict list"
  documents :: "Document list"
  oracle_calls :: nat

text \<open>
  Every \<^verbatim>\<open>raise\<close> of the modelled code.  The two wrappers carry the exception they
  re-raise (\<^verbatim>\<open>f"Failed to generate verdict: {str(e)}"\<close>).
\<close>

datatype error =
    CaseNotFound uuid
  | CaseFinalized
  | CaseDraft
  | MaxRoundsReached int
  | AlreadySubmitted string int
  | VerdictAlreadyExists
  | ValueError string
  | OracleCallFailed
  | InvalidJSON
  | MissingFields "string list"
  | InvalidWinner json
  | TypeError
  | AttributeError
  | CommitFailed
  | FailedToGenerate error
  | FailedAfterArguments error
  | HTTPException nat string

text \<open>
  What the surroundings supply to one adjudication: the oracle's reply, whether the
  commit of the new verdict row goes through, and Python's \<^verbatim>\<open>str()\<close> on a decoded JSON
  value (used by the f-strings of the prompt).  The other commits (of an Argument, of the
  case row after a verdict) are taken to succeed.  A reply carries the outcome of
  \<^verbatim>\<open>json.loads\<close> on its content, \<open>None\<close> when decoding raises, and
  \<^verbatim>\<open>response.usage.total_tokens\<close> when the reply has a usage.
\<close>

datatype oracle_response =
    ClientError
  | Response "json option" "int option"

record env =
  reply :: oracle_response
  verdict_commit_ok :: bool
  py_str :: "json \<Rightarrow> string"

section \<open>Python helpers\<close>

fun join :: "string \<Rightarrow> string list \<Rightarrow> string" where
  "join sep [] = []"
| "join sep [x] = x"
| "join sep (x # y # ys) = x @ sep @ join sep (y # ys)"

fun str_nat :: "nat \<Rightarrow> string" where
  "str_nat n =
     (if n < 10 then [char_of (48 + n)]
      else str_nat (n div 10) @ [char_of (48 + n mod 10)])"

declare str_nat.simps [simp del]

definition str_int :: "int \<Rightarrow> string" where
  "str_int i = (if i < 0 then ''-'' @ str_nat (nat (- i)) else str_nat (nat i))"

fun starts_with :: "string \<Rightarrow> string \<Rightarrow> bool" where
  "starts_with [] s = True"
| "starts_with (p # ps) [] = False"
| "starts_with (p # ps) (c # cs) = (p = c \<and> starts_with ps cs)"

fun substring_of :: "string \<Rightarrow> string \<Rightarrow> bool" where
  "substring_of p [] = (p = [])"
| "substring_of p (c # cs) = (starts_with p (c # cs) \<or> substring_of p cs)"

text \<open>\<^verbatim>\<open>d[k]\<close> and \<^verbatim>\<open>d.get(k, default)\<close> on the dict decoded from an object.\<close>

definition dict_get :: "(string \<times> json) list \<Rightarrow> string \<Rightarrow> json option" where
  "dict_get kvs k = map_of (rev kvs) k"

text \<open>Python truthiness of a decoded JSON value.\<close>

fun truthy :: "json \<Rightarrow> bool" where
  "truthy JNull = False"
| "truthy (JBool b) = b"
| "truthy (JNum q) = (q \<noteq> 0)"
| "truthy (JStr s) = (s \<noteq> [])"
| "truthy (JArr xs) = (xs \<noteq> [])"
| "truthy (JObj kvs) = (kvs \<noteq> [])"

section \<open>Response validation\<close>

definition required_fields :: "string list" where
  "required_fields =
     [''summary'', ''winner'', ''confidence_score'', ''issues'', ''final_decision'',
      ''key_evidence_cited'']"

text \<open>
  \<^verbatim>\<open>[field for field in required_fields if field not in verdict_dict]\<close>: \<^verbatim>\<open>in\<close> is key
  membership on a dict, element membership on a list, substring search on a string, and
  a TypeError on the other decoded values.
\<close>

fun missing_fields :: "json \<Rightarrow> error + string list" where
  "missing_fields (JObj kvs) = Inr (filter (\<lambda>f. f \<notin> set (map fst kvs)) required_fields)"
| "missing_fields (JArr xs) = Inr (filter (\<lambda>f. JStr f \<notin> set xs) required_fields)"
| "missing_fields (JStr s) = Inr (filter (\<lambda>f. \<not> substring_of f s) required_fields)"
| "missing_fields _ = Inl TypeError"

text \<open>\<^verbatim>\<open>verdict_dict['winner']\<close>: a list or a string indexed by a string raises.\<close>

fun subscript :: "json \<Rightarrow> string \<Rightarrow> error + json" where
  "subscript (JObj kvs) k = (case dict_get kvs k of None \<Rightarrow> Inl TypeError | Some v \<Rightarrow> Inr v)"
| "subscript _ k = Inl TypeError"

definition parse_verdict_json :: "json option \<Rightarrow> error + json" where
  "parse_verdict_json decoded =
     (case decoded of
        None \<Rightarrow> Inl InvalidJSON
      | Some verdict_dict \<Rightarrow>
          (case missing_fields verdict_dict of
             Inl e \<Rightarrow> Inl e
           | Inr missing \<Rightarrow>
               if missing \<noteq> [] then Inl (MissingFields missing)
               else (case subscript verdict_dict ''winner'' of
                       Inl e \<Rightarrow> Inl e
                     | Inr w \<Rightarrow>
                         if w \<notin> set [JStr ''A'', JStr ''B'', JStr ''undecided'']
                         then Inl (InvalidWinner w)
                         else Inr verdict_dict)))"

text \<open>The inline validation of \<^verbatim>\<open>generate_verdict_with_arguments\<close> (lines 203 to 210).\<close>

definition validate_argument_verdict :: "json option \<Rightarrow> error + json" where
  "validate_argument_verdict decoded =
     (case decoded of
        None \<Rightarrow> Inl InvalidJSON
      | Some verdict_dict \<Rightarrow>
          (case missing_fields verdict_dict of
             Inl e \<Rightarrow> Inl e
           | Inr missing \<Rightarrow>
               if missing \<noteq> [] then Inl (MissingFields missing)
               else Inr verdict_dict))"

section \<open>Context assembly\<close>

text \<open>
  \<^verbatim>\<open>f"**{doc.title}** ({doc.file_type})\n{(doc.full_text or '')[:800]}"\<close> of
  \<^verbatim>\<open>build_verdict_with_arguments_prompt\<close>: the excerpt, then the entry it ends.
\<close>

definition doc_excerpt :: "Document \<Rightarrow> string" where
  "doc_excerpt doc = take 800 (case full_text doc of None \<Rightarrow> [] | Some t \<Rightarrow> t)"

definition doc_entry :: "Document \<Rightarrow> string" where
  "doc_entry doc =
     ''**'' @ doc_title doc @ ''** ('' @ file_type doc @ '')\<newline>'' @ doc_excerpt doc"

definition doc_summary :: "Document list \<Rightarrow> string" where
  "doc_summary docs = join ''\<newline>\<newline>'' (map doc_entry docs)"

text \<open>
  The same entry in \<^verbatim>\<open>build_verdict_prompt\<close>, where \<^verbatim>\<open>doc.full_text[:1000]\<close> has no
  guard: slicing \<^verbatim>\<open>None\<close> raises a TypeError.
\<close>

definition initial_doc_entry :: "Document \<Rightarrow> error + string" where
  "initial_doc_entry doc =
     (case full_text doc of
        None \<Rightarrow> Inl TypeError
      | Some t \<Rightarrow>
          Inr (''**'' @ doc_title doc @ ''** ('' @ file_type doc @ '')\<newline>'' @ take 1000 t))"

fun initial_doc_entries :: "Document list \<Rightarrow> error + string list" where
  "initial_doc_entries [] = Inr []"
| "initial_doc_entries (doc # docs) =
     (case initial_doc_entry doc of
        Inl e \<Rightarrow> Inl e
      | Inr x \<Rightarrow> (case initial_doc_entries docs of Inl e \<Rightarrow> Inl e | Inr xs \<Rightarrow> Inr (x # xs)))"

definition arg_summary :: "Argument list \<Rightarrow> string" where
  "arg_summary args =
     (if args \<noteq> [] then
        join ''\<newline>\<newline>''
          (map (\<lambda>(i, arg). ''**Argument '' @ str_nat (i + 1) @ '':**\<newline>'' @ argument_text arg)
             (enumerate 0 args))
      else ''No arguments submitted'')"

definition get_or_na :: "env \<Rightarrow> (string \<times> json) list \<Rightarrow> string \<Rightarrow> string" where
  "get_or_na e kvs k = (case dict_get kvs k of None \<Rightarrow> ''N/A'' | Some v \<Rightarrow> py_str e v)"

text \<open>
  The summary of the previous verdict: \<^verbatim>\<open>vj.get\<close> exists on a dict only, so a truthy
  \<^verbatim>\<open>verdict_json\<close> of another type raises an AttributeError.
\<close>

definition prev_verdict_summary :: "env \<Rightarrow> Verdict option \<Rightarrow> error + string" where
  "prev_verdict_summary e previous_verdict =
     (case previous_verdict of
        None \<Rightarrow> Inr ''N/A''
      | Some pv \<Rightarrow>
          if \<not> truthy (verdict_json pv) then Inr ''N/A''
          else (case verdict_json pv of
                  JObj vj \<Rightarrow>
                    Inr (''\<newline>**Previous Verdict (Round '' @ str_int (verdict_round pv) @ ''):**\<newline>''
                         @ ''- Winner: '' @ get_or_na e vj ''winner'' @ ''\<newline>''
                         @ ''- Confidence: '' @ get_or_na e vj ''confidence_score'' @ ''\<newline>''
                         @ ''- Summary: '' @ get_or_na e vj ''summary'' @ ''\<newline>''
                         @ ''- Decision: '' @ get_or_na e vj ''final_decision'' @ ''\<newline>'')
                | _ \<Rightarrow> Inl AttributeError))"

definition case_information :: "Case \<Rightarrow> string" where
  "case_information c =
     ''**CASE INFORMATION:**\<newline>''
     @ ''- Title: '' @ title c @ ''\<newline>''
     @ ''- Case Number: '' @ case_number c @ ''\<newline>''
     @ ''- Type: '' @ case_type c @ ''\<newline>''
     @ ''- Jurisdiction: '' @ jurisdiction c @ ''\<newline>''
     @ ''- Description: ''
     @ (case description c of None \<Rightarrow> ''N/A'' | Some d \<Rightarrow> if d = [] then ''N/A'' else d)
     @ ''\<newline>''"

definition argument_instructions :: string where
  \<open>argument_instructions =
     ''**INSTRUCTIONS:**\<newline>''
     @ ''1. Review the previous verdict and the new arguments from both sides\<newline>''
     @ ''2. Consider how the arguments address or challenge the previous findings\<newline>''
     @ ''3. Re-evaluate the evidence in light of the new arguments\<newline>''
     @ ''4. Determine if the arguments change your assessment\<newline>''
     @ ''5. Update your verdict accordingly\<newline>''
     @ ''6. Explain what impact (if any) the arguments had on your decision\<newline>''
     @ ''\<newline>''
     @ ''**IMPORTANT:** You must respond with ONLY a valid JSON object in the following format:\<newline>''
     @ ''\<newline>''
     @ ''{\<newline>''
     @ ''    "summary": "Brief 2-3 sentence summary of how this round affected the case",\<newline>''
     @ ''    "winner": "A" or "B" or "undecided",\<newline>''
     @ ''    "confidence_score": 0.85,\<newline>''
     @ ''    "issues": [\<newline>''
     @ ''        {\<newline>''
     @ ''            "issue": "Question or issue being decided",\<newline>''
     @ ''            "finding": "Your finding on this issue",\<newline>''
     @ ''            "reasoning": "Detailed reasoning with evidence and argument citations"\<newline>''
     @ ''        }\<newline>''
     @ ''    ],\<newline>''
     @ ''    "final_decision": "Your updated verdict with reasoning (3-5 sentences)",\<newline>''
     @ ''    "key_evidence_cited": ["Document and argument references that were most important"]\<newline>''
     @ ''}\<newline>''
     @ ''\<newline>''
     @ ''Provide your verdict as a JSON object only:''\<close>

definition build_verdict_with_arguments_prompt ::
  "env \<Rightarrow> Case \<Rightarrow> Document list \<Rightarrow> Document list \<Rightarrow> Argument list \<Rightarrow> Argument list \<Rightarrow>
   Verdict option \<Rightarrow> int \<Rightarrow> error + string" where
  "build_verdict_with_arguments_prompt e c side_a_docs side_b_docs side_a_args side_b_args
       previous_verdict round_number =
     (case prev_verdict_summary e previous_verdict of
        Inl err \<Rightarrow> Inl err
      | Inr prev \<Rightarrow>
          Inr (''You are an AI judge presiding over a mock trial case. This is Round ''
               @ str_int round_number @ '' of arguments.\<newline>\<newline>''
               @ case_information c
               @ ''\<newline>**CURRENT ROUND:** '' @ str_int round_number @ ''\<newline>\<newline>''
               @ prev @ ''\<newline>\<newline>''
               @ ''**SIDE A EVIDENCE:**\<newline>'' @ doc_summary side_a_docs @ ''\<newline>\<newline>''
               @ ''**SIDE A ARGUMENTS (Round '' @ str_int round_number @ ''):**\<newline>''
               @ arg_summary side_a_args @ ''\<newline>\<newline>''
               @ ''**SIDE B EVIDENCE:**\<newline>'' @ doc_summary side_b_docs @ ''\<newline>\<newline>''
               @ ''**SIDE B ARGUMENTS (Round '' @ str_int round_number @ ''):**\<newline>''
               @ arg_summary side_b_args @ ''\<newline>\<newline>''
               @ argument_instructions))"

definition initial_instructions :: string where
  \<open>initial_instructions =
     ''**INSTRUCTIONS:**\<newline>''
     @ ''1. Carefully review all evidence from both sides\<newline>''
     @ ''2. Identify the key legal issues\<newline>''
     @ ''3. Analyze each issue based on the evidence presented\<newline>''
     @ ''4. Determine which side has the stronger case\<newline>''
     @ ''5. Provide reasoning for your decision\<newline>''
     @ ''6. Assign a confidence score (0.0 to 1.0)\<newline>''
     @ ''\<newline>''
     @ ''**IMPORTANT:** You must respond with ONLY a valid JSON object in the following format:\<newline>''
     @ ''\<newline>''
     @ ''{\<newline>''
     @ ''    "summary": "Brief 2-3 sentence summary of the case",\<newline>''
     @ ''    "winner": "A" or "B" or "undecided",\<newline>''
     @ ''    "confidence_score": 0.85,\<newline>''
     @ ''    "issues": [\<newline>''
     @ ''        {\<newline>''
     @ ''            "issue": "Question or issue being decided",\<newline>''
     @ ''            "finding": "Your finding on this issue",\<newline>''
     @ ''            "reasoning": "Detailed reasoning with evidence citations"\<newline>''
     @ ''        }\<newline>''
     @ ''    ],\<newline>''
     @ ''    "final_decision": "Your final verdict with reasoning (3-5 sentences)",\<newline>''
     @ ''    "key_evidence_cited": ["Document titles that were most important"]\<newline>''
     @ ''}\<newline>''
     @ ''\<newline>''
     @ ''Provide your verdict as a JSON object only:''\<close>

definition build_verdict_prompt :: "Case \<Rightarrow> Document list \<Rightarrow> Document list \<Rightarrow> int \<Rightarrow> error + string" where
  "build_verdict_prompt c side_a_docs side_b_docs round_number =
     (case initial_doc_entries side_a_docs of
        Inl err \<Rightarrow> Inl err
      | Inr as \<Rightarrow>
          (case initial_doc_entries side_b_docs of
             Inl err \<Rightarrow> Inl err
           | Inr bs \<Rightarrow>
               Inr (''You are an AI judge presiding over a mock trial case.\<newline>\<newline>''
                    @ case_information c
                    @ ''\<newline>**CURRENT ROUND:** '' @ str_int round_number
                    @ '' (Initial Verdict - no arguments yet)\<newline>\<newline>''
                    @ ''Your task is to analyze the evidence submitted by both sides and deliver an initial verdict.\<newline>\<newline>''
                    @ ''**SIDE A EVIDENCE:**\<newline>'' @ join ''\<newline>\<newline>'' as @ ''\<newline>\<newline>''
                    @ ''**SIDE B EVIDENCE:**\<newline>'' @ join ''\<newline>\<newline>'' bs @ ''\<newline>\<newline>''
                    @ initial_instructions)))"

section \<open>Verdict orchestration\<close>

definition get_verdict_by_round :: "uuid \<Rightarrow> int \<Rightarrow> store \<Rightarrow> Verdict option" where
  "get_verdict_by_round case_id round_number db =
     find (\<lambda>v. verdict_case_id v = case_id \<and> verdict_round v = round_number) (verdicts db)"

definition get_all_verdicts :: "uuid \<Rightarrow> store \<Rightarrow> Verdict list" where
  "get_all_verdicts case_id db =
     sort_key verdict_round (filter (\<lambda>v. verdict_case_id v = case_id) (verdicts db))"

definition ready_docs :: "uuid \<Rightarrow> string \<Rightarrow> store \<Rightarrow> Document list" where
  "ready_docs case_id side db =
     filter (\<lambda>doc. doc_side doc = side)
       (filter (\<lambda>doc. doc_case_id doc = case_id \<and> doc_status doc = ''ready'') (documents db))"

text \<open>The context is the case with the ready documents of side A and of side B.\<close>

definition fetch_case_context ::
  "uuid \<Rightarrow> store \<Rightarrow> error + Case \<times> Document list \<times> Document list" where
  "fetch_case_context case_id db =
     (case cases db case_id of
        None \<Rightarrow> Inl (CaseNotFound case_id)
      | Some c \<Rightarrow> Inr (c, ready_docs case_id ''A'' db, ready_docs case_id ''B'' db))"

definition validate_documents :: "Case \<times> Document list \<times> Document list \<Rightarrow> error + unit" where
  "validate_documents context =
     (case context of (c, side_a_docs, side_b_docs) \<Rightarrow>
        if side_a_docs = [] then Inl (ValueError ''Side A has not submitted any documents'')
        else if side_b_docs = [] then Inl (ValueError ''Side B has not submitted any documents'')
        else Inr ())"

definition called :: "store \<Rightarrow> store" where
  "called db = db\<lparr>oracle_calls := oracle_calls db + 1\<rparr>"

text \<open>
  The existence check, the context and its validation and the prompt come before the
  \<^verbatim>\<open>try\<close>, so their exceptions leave as they are; those of the oracle call, of the
  validation of its reply and of the commit are wrapped.
\<close>

definition generate_initial_verdict :: "uuid \<Rightarrow> env \<Rightarrow> store \<Rightarrow> (error + Verdict) \<times> store" where
  "generate_initial_verdict case_id e db =
     (if get_verdict_by_round case_id 0 db \<noteq> None then (Inl VerdictAlreadyExists, db)
      else
        (case fetch_case_context case_id db of
           Inl err \<Rightarrow> (Inl err, db)
         | Inr context \<Rightarrow>
             (case validate_documents context of
                Inl err \<Rightarrow> (Inl err, db)
              | Inr _ \<Rightarrow>
                  (case context of (c, side_a_docs, side_b_docs) \<Rightarrow>
                     (case build_verdict_prompt c side_a_docs side_b_docs 0 of
                        Inl err \<Rightarrow> (Inl err, db)
                      | Inr prompt \<Rightarrow>
                          (case reply e of
                             ClientError \<Rightarrow> (Inl (FailedToGenerate OracleCallFailed), called db)
                           | Response decoded usage \<Rightarrow>
                               (case parse_verdict_json decoded of
                                  Inl err \<Rightarrow> (Inl (FailedToGenerate err), called db)
                                | Inr verdict_dict \<Rightarrow>
                                    if \<not> verdict_commit_ok e
                                    then (Inl (FailedToGenerate CommitFailed), called db)
                                    else
                                      let verdict =
                                            \<lparr>verdict_case_id = case_id, verdict_round = 0,
                                             verdict_json = verdict_dict,
                                             model_used = ''gpt-4o-mini'', tokens_used = usage\<rparr>
                                      in (Inr verdict,
                                          (called db)
                                            \<lparr>verdicts := verdicts db @ [verdict],
                                             cases := (cases db)(case_id \<mapsto>
                                               c\<lparr>status := ''in_progress'',
                                                 current_round := 1\<rparr>)\<rparr>))))))))"

section \<open>Argument orchestration\<close>

definition find_argument :: "uuid \<Rightarrow> int \<Rightarrow> string \<Rightarrow> store \<Rightarrow> Argument option" where
  "find_argument case_id r side db =
     find (\<lambda>a. arg_case_id a = case_id \<and> arg_round a = r \<and> arg_side a = side) (arguments db)"

definition round_args :: "uuid \<Rightarrow> int \<Rightarrow> string \<Rightarrow> store \<Rightarrow> Argument list" where
  "round_args case_id r side db =
     filter (\<lambda>a. arg_side a = side)
       (filter (\<lambda>a. arg_case_id a = case_id \<and> arg_round a = r) (arguments db))"

text \<open>
  Here the case lookup and the prompt come before the \<^verbatim>\<open>try\<close>.  There is no check for
  a verdict of the round that exists already, and no check of the winner.
\<close>

definition generate_verdict_with_arguments ::
  "uuid \<Rightarrow> int \<Rightarrow> env \<Rightarrow> store \<Rightarrow> (error + Verdict) \<times> store" where
  "generate_verdict_with_arguments case_id round_number e db =
     (case cases db case_id of
        None \<Rightarrow> (Inl (CaseNotFound case_id), db)
      | Some c \<Rightarrow>
          (case build_verdict_with_arguments_prompt e c
                  (ready_docs case_id ''A'' db) (ready_docs case_id ''B'' db)
                  (round_args case_id round_number ''A'' db)
                  (round_args case_id round_number ''B'' db)
                  (get_verdict_by_round case_id (round_number - 1) db) round_number of
             Inl err \<Rightarrow> (Inl err, db)
           | Inr prompt \<Rightarrow>
               (case reply e of
                  ClientError \<Rightarrow> (Inl (FailedToGenerate OracleCallFailed), called db)
                | Response decoded usage \<Rightarrow>
                    (case validate_argument_verdict decoded of
                       Inl err \<Rightarrow> (Inl (FailedToGenerate err), called db)
                     | Inr verdict_dict \<Rightarrow>
                         if \<not> verdict_commit_ok e
                         then (Inl (FailedToGenerate CommitFailed), called db)
                         else
                           let verdict =
                                 \<lparr>verdict_case_id = case_id, verdict_round = round_number,
                                  verdict_json = verdict_dict,
                                  model_used = ''gpt-4o-mini'', tokens_used = usage\<rparr>
                           in (Inr verdict,
                               (called db)\<lparr>verdicts := verdicts db @ [verdict]\<rparr>)))))"

record submit_result =
  argument :: Argument
  verdict :: "Verdict option"
  waiting_for_other_side :: bool

definition submit_argument ::
  "uuid \<Rightarrow> string \<Rightarrow> string \<Rightarrow> uuid \<Rightarrow> env \<Rightarrow> store \<Rightarrow> (error + submit_result) \<times> store" where
  "submit_argument case_id side text user_id e db =
     (case cases db case_id of
        None \<Rightarrow> (Inl (CaseNotFound case_id), db)
      | Some c \<Rightarrow>
          if status c = ''finalized'' then (Inl CaseFinalized, db)
          else if status c = ''draft'' then (Inl CaseDraft, db)
          else if current_round c \<ge> max_rounds c then (Inl (MaxRoundsReached (max_rounds c)), db)
          else
            let r = current_round c in
            if find_argument case_id r side db \<noteq> None then (Inl (AlreadySubmitted side r), db)
            else
              let arg = \<lparr>arg_case_id = case_id, arg_round = r, arg_side = side,
                         argument_text = text, submitted_by = user_id\<rparr>;
                  db1 = db\<lparr>arguments := arguments db @ [arg]\<rparr>
              in
                if find_argument case_id r ''A'' db1 \<noteq> None
                   \<and> find_argument case_id r ''B'' db1 \<noteq> None
                then
                  (case generate_verdict_with_arguments case_id r e db1 of
                     (Inl err, db2) \<Rightarrow> (Inl (FailedAfterArguments err), db2)
                   | (Inr v, db2) \<Rightarrow>
                       (Inr \<lparr>argument = arg, verdict = Some v, waiting_for_other_side = False\<rparr>,
                        db2\<lparr>cases := (cases db2)(case_id \<mapsto> c\<lparr>current_round := r + 1\<rparr>)\<rparr>))
                else
                  (Inr \<lparr>argument = arg, verdict = None, waiting_for_other_side = True\<rparr>, db1))"

section \<open>Case service and the finalize endpoint\<close>

record CaseCreate =
  new_title :: string
  new_description :: "string option"
  new_case_type :: string
  new_jurisdiction :: string

text \<open>
  \<^verbatim>\<open>create_case\<close> draws the row's id and the case number at random; both are arguments
  here, and a draw that is taken already fails the commit on the primary key or on the
  unique case number.
\<close>

definition create_case ::
  "uuid \<Rightarrow> string \<Rightarrow> CaseCreate \<Rightarrow> uuid \<Rightarrow> nat \<Rightarrow> store \<Rightarrow> (error + Case) \<times> store" where
  "create_case new_id number case_data user_id now db =
     (if cases db new_id \<noteq> None \<or> (\<exists>c \<in> ran (cases db). case_number c = number)
      then (Inl CommitFailed, db)
      else
        let c = \<lparr>case_number = number, title = new_title case_data,
                 description = new_description case_data, case_type = new_case_type case_data,
                 jurisdiction = new_jurisdiction case_data, created_by = user_id,
                 status = ''draft'', current_round = 0, max_rounds = 5,
                 updated_at = Some now, finalized_at = None\<rparr>
        in (Inr c, db\<lparr>cases := (cases db)(new_id \<mapsto> c)\<rparr>))"

text \<open>
  \<^verbatim>\<open>CaseUpdate\<close>: a field that the request leaves unset is \<open>None\<close>.  The status is any
  string; the schema puts no constraint on it.
\<close>

record CaseUpdate =
  set_title :: "string option"
  set_description :: "string option option"
  set_case_type :: "string option"
  set_jurisdiction :: "string option"
  set_status :: "string option"

definition apply_update :: "CaseUpdate \<Rightarrow> nat \<Rightarrow> Case \<Rightarrow> Case" where
  "apply_update u now c =
     c\<lparr>title := (case set_title u of None \<Rightarrow> title c | Some x \<Rightarrow> x),
       description := (case set_description u of None \<Rightarrow> description c | Some x \<Rightarrow> x),
       case_type := (case set_case_type u of None \<Rightarrow> case_type c | Some x \<Rightarrow> x),
       jurisdiction := (case set_jurisdiction u of None \<Rightarrow> jurisdiction c | Some x \<Rightarrow> x),
       status := (case set_status u of None \<Rightarrow> status c | Some x \<Rightarrow> x),
       updated_at := Some now\<rparr>"

definition get_case_by_id :: "uuid \<Rightarrow> uuid \<Rightarrow> store \<Rightarrow> Case option" where
  "get_case_by_id case_id user_id db =
     (case cases db case_id of
        None \<Rightarrow> None
      | Some c \<Rightarrow> if created_by c = user_id then Some c else None)"

definition update_case :: "uuid \<Rightarrow> CaseUpdate \<Rightarrow> uuid \<Rightarrow> nat \<Rightarrow> store \<Rightarrow> Case option \<times> store" where
  "update_case case_id case_data user_id now db =
     (case get_case_by_id case_id user_id db of
        None \<Rightarrow> (None, db)
      | Some c \<Rightarrow>
          let c' = apply_update case_data now c
          in (Some c', db\<lparr>cases := (cases db)(case_id \<mapsto> c')\<rparr>))"

definition finalize_case :: "uuid \<Rightarrow> uuid \<Rightarrow> nat \<Rightarrow> store \<Rightarrow> (error + Case) \<times> store" where
  "finalize_case case_id current_user now db =
     (case cases db case_id of
        None \<Rightarrow> (Inl (HTTPException 404 ''Case not found''), db)
      | Some c \<Rightarrow>
          if created_by c \<noteq> current_user then (Inl (HTTPException 403 ''Access denied''), db)
          else if status c = ''finalized''
          then (Inl (HTTPException 409 ''Case is already finalized''), db)
          else if get_verdict_by_round case_id 0 db = None
          then (Inl (HTTPException 422 ''Cannot finalize case without an initial verdict''), db)
          else
            let c' = c\<lparr>status := ''finalized'', finalized_at := Some now\<rparr>
            in (Inr c', db\<lparr>cases := (cases db)(case_id \<mapsto> c')\<rparr>))"

section \<open>Requests and reachable stores\<close>

text \<open>
  The operations a client can trigger.  Documents belong to the ingestion service, which
  uploads, processes and deletes them: for the orchestrators the table just changes.
\<close>

datatype request =
    CreateCase uuid string CaseCreate uuid nat
  | ChangeDocuments "Document list"
  | GenerateInitialVerdict uuid env
  | SubmitArgument uuid string string uuid env
  | FinalizeCase uuid uuid nat
  | UpdateCase uuid CaseUpdate uuid nat

fun step :: "request \<Rightarrow> store \<Rightarrow> store" where
  "step (CreateCase new_id number case_data user_id now) db =
     snd (create_case new_id number case_data user_id now db)"
| "step (ChangeDocuments docs) db = db\<lparr>documents := docs\<rparr>"
| "step (GenerateInitialVerdict case_id e) db = snd (generate_initial_verdict case_id e db)"
| "step (SubmitArgument case_id side text user_id e) db =
     snd (submit_argument case_id side text user_id e db)"
| "step (FinalizeCase case_id user_id now) db = snd (finalize_case case_id user_id now db)"
| "step (UpdateCase case_id case_data user_id now) db =
     snd (update_case case_id case_data user_id now db)"

definition run :: "request list \<Rightarrow> store \<Rightarrow> store" where
  "run reqs db = fold step reqs db"

definition empty_store :: store where
  "empty_store =
     \<lparr>cases = Map.empty, arguments = [], verdicts = [], documents = [], oracle_calls = 0\<rparr>"

fun sets_draft :: "request \<Rightarrow> bool" where
  "sets_draft (UpdateCase case_id case_data user_id now) = (set_status case_data = Some ''draft'')"
| "sets_draft _ = False"

definition case_verdicts :: "uuid \<Rightarrow> store \<Rightarrow> Verdict list" where
  "case_verdicts case_id db = filter (\<lambda>v. verdict_case_id v = case_id) (verdicts db)"

text \<open>The invariant of the round counter and the verdict count, for one case and for all.\<close>

definition case_round_invariant :: "store \<Rightarrow> uuid \<Rightarrow> Case \<Rightarrow> bool" where
  "case_round_invariant db case_id c \<longleftrightarrow>
     0 \<le> current_round c \<and> current_round c \<le> max_rounds c
     \<and> int (length (case_verdicts case_id db))
         = (if status c \<noteq> ''draft'' then current_round c else 0)"

definition round_invariant :: "store \<Rightarrow> bool" where
  "round_invariant db \<longleftrightarrow>
     (\<forall>case_id c. cases db case_id = Some c \<longrightarrow> case_round_invariant db case_id c)"

text \<open>
  What the operations maintain: the verdicts of a case are those of the rounds
  \<open>0, \<dots>, current_round - 1\<close>, in this order, and a case that is not in the table has none.
\<close>

definition verdict_rounds :: "uuid \<Rightarrow> store \<Rightarrow> int list" where
  "verdict_rounds case_id db = map verdict_round (case_verdicts case_id db)"

definition rounds_in_step :: "store \<Rightarrow> bool" where
  "rounds_in_step db \<longleftrightarrow>
     (\<forall>case_id.
        case cases db case_id of
          None \<Rightarrow> verdict_rounds case_id db = []
        | Some c \<Rightarrow>
            0 \<le> current_round c \<and> current_round c \<le> max_rounds c \<and> 1 \<le> max_rounds c
            \<and> verdict_rounds case_id db = [0 .. current_round c - 1])"

definition draft_at_zero :: "store \<Rightarrow> bool" where
  "draft_at_zero db \<longleftrightarrow>
     (\<forall>case_id c. cases db case_id = Some c \<longrightarrow> status c = ''draft'' \<longrightarrow> current_round c = 0)"

section \<open>A sample case\<close>

definition sample_case :: Case where
  "sample_case =
     \<lparr>case_number = ''CAS-2025-1A2B3C'', title = ''Lease dispute'', description = None,
      case_type = ''civil'', jurisdiction = ''India'', created_by = 7,
      status = ''in_progress'', current_round = 1, max_rounds = 5,
      updated_at = Some 0, finalized_at = None\<rparr>"

definition sample_doc :: "string \<Rightarrow> string option \<Rightarrow> Document" where
  "sample_doc side text =
     \<lparr>doc_case_id = 1, doc_side = side, doc_title = ''Contract'', file_type = ''pdf'',
      full_text = text, doc_status = ''ready''\<rparr>"

definition sample_json :: "json \<Rightarrow> json \<Rightarrow> json" where
  "sample_json winner confidence =
     JObj [(''summary'', JStr ''s''), (''winner'', winner), (''confidence_score'', confidence),
           (''issues'', JArr []), (''final_decision'', JStr ''d''),
           (''key_evidence_cited'', JArr [])]"

definition sample_verdict :: "int \<Rightarrow> Verdict" where
  "sample_verdict r =
     \<lparr>verdict_case_id = 1, verdict_round = r,
      verdict_json = sample_json (JStr ''A'') (JNum (4 / 5)),
      model_used = ''gpt-4o-mini'', tokens_used = Some 300\<rparr>"

definition sample_arg :: "string \<Rightarrow> Argument" where
  "sample_arg side =
     \<lparr>arg_case_id = 1, arg_round = 1, arg_side = side,
      argument_text = ''The lease was renewed.'', submitted_by = 7\<rparr>"

text \<open>Case 1 after its initial verdict, in round 1, with the given arguments.\<close>

definition sample_store :: "Argument list \<Rightarrow> store" where
  "sample_store args =
     \<lparr>cases = [1 \<mapsto> sample_case], arguments = args, verdicts = [sample_verdict 0],
      documents = [sample_doc ''A'' (Some ''lease''), sample_doc ''B'' None],
      oracle_calls = 1\<rparr>"

definition sample_env :: "oracle_response \<Rightarrow> env" where
  "sample_env r = \<lparr>reply = r, verdict_commit_ok = True, py_str = (\<lambda>j. ''?'')\<rparr>"

text \<open>Case 1 as \<^verbatim>\<open>create_case\<close> leaves it, with the given documents.\<close>

definition draft_store :: "Document list \<Rightarrow> store" where
  "draft_store docs =
     \<lparr>cases = [1 \<mapsto> sample_case\<lparr>status := ''draft'', current_round := 0\<rparr>], arguments = [],
      verdicts = [], documents = docs, oracle_calls = 0\<rparr>"

definition sample_docs :: "Document list" where
  "sample_docs = [sample_doc ''A'' (Some ''lease''), sample_doc ''B'' (Some ''notice'')]"

text \<open>
  The requests that lead from the empty store to \<open>sample_store []\<close>: the case is created,
  both sides get a ready document, the initial verdict is generated, and side B's document
  is replaced by one whose text was not extracted.
\<close>

definition sample_history :: "request list" where
  "sample_history =
     [CreateCase 1 ''CAS-2025-1A2B3C''
        \<lparr>new_title = ''Lease dispute'', new_description = None, new_case_type = ''civil'',
         new_jurisdiction = ''India''\<rparr> 7 0,
      ChangeDocuments sample_docs,
      GenerateInitialVerdict 1
        (sample_env (Response (Some (sample_json (JStr ''A'') (JNum (4 / 5)))) (Some 300))),
      ChangeDocuments [sample_doc ''A'' (Some ''lease''), sample_doc ''B'' None]]"

section \<open>Validity of a reply, in the words of the specification\<close>






section \<open>Frame lemmas of the argument-round adjudication\<close>
lemma gvwa_frame:
  "cases (snd (generate_verdict_with_arguments cid r e db)) = cases db \<and>
   arguments (snd (generate_verdict_with_arguments cid r e db)) = arguments db \<and>
   documents (snd (generate_verdict_with_arguments cid r e db)) = documents db"
  by (simp add: generate_verdict_with_arguments_def called_def Let_def
      split: option.split sum.split oracle_response.split)

lemma gvwa_Inl:
  "generate_verdict_with_arguments cid r e db = (Inl err, db') \<Longrightarrow>
   verdicts db' = verdicts db \<and> cases db' = cases db \<and> arguments db' = arguments db
   \<and> documents db' = documents db"
  by (auto simp: generate_verdict_with_arguments_def called_def Let_def
      split: option.splits sum.splits oracle_response.splits if_splits)

lemma gvwa_Inr:
  "generate_verdict_with_arguments cid r e db = (Inr v, db') \<Longrightarrow>
   db' = (called db)\<lparr>verdicts := verdicts db @ [v]\<rparr> \<and> verdict_case_id v = cid
   \<and> verdict_round v = r"
  by (auto simp: generate_verdict_with_arguments_def called_def Let_def
      split: option.splits sum.splits oracle_response.splits if_splits)

lemma find_argument_None_iff:
  "find_argument cid r s db = None \<longleftrightarrow>
   \<not> (\<exists>a \<in> set (arguments db). arg_case_id a = cid \<and> arg_round a = r \<and> arg_side a = s)"
  by (auto simp: find_argument_def find_None_iff)

section \<open>The submission gate\<close>

text \<open>
  C6.  On an existing case \<^verbatim>\<open>submit_argument\<close> applies its checks in this order: a
  finalized case fails with the finalized-case error, a draft case with the not-ready error,
  a case whose \<open>current_round\<close> has reached \<open>max_rounds\<close> with the round-limit error, a
  slot (case, current round, side) that is filled already with the duplicate-submission
  error; each leaves the store as it was.  Otherwise exactly one new Argument for
  (case, current round, side) is appended, whatever the adjudication that may follow does.
\<close>

theorem submit_argument_gate:
  assumes "cases db cid = Some c"
  shows "(status c = ''finalized'' \<longrightarrow>
            submit_argument cid side text uid e db = (Inl CaseFinalized, db))
       \<and> (status c \<noteq> ''finalized'' \<and> status c = ''draft'' \<longrightarrow>
            submit_argument cid side text uid e db = (Inl CaseDraft, db))
       \<and> (status c \<noteq> ''finalized'' \<and> status c \<noteq> ''draft'' \<and> current_round c \<ge> max_rounds c \<longrightarrow>
            submit_argument cid side text uid e db = (Inl (MaxRoundsReached (max_rounds c)), db))
       \<and> (status c \<noteq> ''finalized'' \<and> status c \<noteq> ''draft'' \<and> current_round c < max_rounds c
          \<and> (\<exists>a \<in> set (arguments db).
                arg_case_id a = cid \<and> arg_round a = current_round c \<and> arg_side a = side) \<longrightarrow>
            submit_argument cid side text uid e db
              = (Inl (AlreadySubmitted side (current_round c)), db))
       \<and> (status c \<noteq> ''finalized'' \<and> status c \<noteq> ''draft'' \<and> current_round c < max_rounds c
          \<and> \<not> (\<exists>a \<in> set (arguments db).
                arg_case_id a = cid \<and> arg_round a = current_round c \<and> arg_side a = side) \<longrightarrow>
            arguments (snd (submit_argument cid side text uid e db))
              = arguments db @ [\<lparr>arg_case_id = cid, arg_round = current_round c, arg_side = side,
                                 argument_text = text, submitted_by = uid\<rparr>])"
proof (intro conjI impI)
  assume "status c = ''finalized''"
  with assms show "submit_argument cid side text uid e db = (Inl CaseFinalized, db)"
    by (simp add: submit_argument_def)
next
  assume "status c \<noteq> ''finalized'' \<and> status c = ''draft''"
  with assms show "submit_argument cid side text uid e db = (Inl CaseDraft, db)"
    by (simp add: submit_argument_def)
next
  assume "status c \<noteq> ''finalized'' \<and> status c \<noteq> ''draft'' \<and> current_round c \<ge> max_rounds c"
  with assms show "submit_argument cid side text uid e db = (Inl (MaxRoundsReached (max_rounds c)), db)"
    by (simp add: submit_argument_def)
next
  assume h: "status c \<noteq> ''finalized'' \<and> status c \<noteq> ''draft'' \<and> current_round c < max_rounds c
          \<and> (\<exists>a \<in> set (arguments db).
                arg_case_id a = cid \<and> arg_round a = current_round c \<and> arg_side a = side)"
  then have "find_argument cid (current_round c) side db \<noteq> None"
    by (simp add: find_argument_None_iff)
  with assms h show "submit_argument cid side text uid e db
              = (Inl (AlreadySubmitted side (current_round c)), db)"
    by (simp add: submit_argument_def Let_def)
next
  assume h: "status c \<noteq> ''finalized'' \<and> status c \<noteq> ''draft'' \<and> current_round c < max_rounds c
          \<and> \<not> (\<exists>a \<in> set (arguments db).
                arg_case_id a = cid \<and> arg_round a = current_round c \<and> arg_side a = side)"
  then have n: "find_argument cid (current_round c) side db = None"
    by (simp add: find_argument_None_iff)
  let ?arg = "\<lparr>arg_case_id = cid, arg_round = current_round c, arg_side = side,
                                 argument_text = text, submitted_by = uid\<rparr>"
  let ?db1 = "db\<lparr>arguments := arguments db @ [?arg]\<rparr>"
  have g: "arguments (snd (generate_verdict_with_arguments cid (current_round c) e ?db1))
             = arguments db @ [?arg]"
    using gvwa_frame [of cid "current_round c" e ?db1] by simp
  obtain res db2 where eq: "generate_verdict_with_arguments cid (current_round c) e ?db1 = (res, db2)"
    by (cases "generate_verdict_with_arguments cid (current_round c) e ?db1")
  with g have a2: "arguments db2 = arguments db @ [?arg]" by simp
  from assms h n eq a2 show "arguments (snd (submit_argument cid side text uid e db))
              = arguments db @ [?arg]"
    by (cases res) (simp_all add: submit_argument_def Let_def)
qed

theorem submit_argument_gate_witness:
  "cases (sample_store []) 1 = Some sample_case
   \<and> submit_argument 1 ''A'' ''The lease was renewed.'' 7 (sample_env ClientError)
        ((sample_store [])\<lparr>cases := [1 \<mapsto> sample_case\<lparr>status := ''finalized''\<rparr>]\<rparr>)
       = (Inl CaseFinalized, (sample_store [])\<lparr>cases := [1 \<mapsto> sample_case\<lparr>status := ''finalized''\<rparr>]\<rparr>)
   \<and> submit_argument 1 ''A'' ''The lease was renewed.'' 7 (sample_env ClientError)
        (sample_store [sample_arg ''A''])
       = (Inl (AlreadySubmitted ''A'' 1), sample_store [sample_arg ''A''])
   \<and> arguments (snd (submit_argument 1 ''A'' ''The lease was renewed.'' 7 (sample_env ClientError)
        (sample_store []))) = [sample_arg ''A'']"
  using submit_argument_gate [of "sample_store []" 1 sample_case "''A''" "''The lease was renewed.''" 7
          "sample_env ClientError"]
    submit_argument_gate [of "sample_store [sample_arg ''A'']" 1 sample_case "''A''"
          "''The lease was renewed.''" 7 "sample_env ClientError"]
    submit_argument_gate [of "(sample_store [])\<lparr>cases := [1 \<mapsto> sample_case\<lparr>status := ''finalized''\<rparr>]\<rparr>"
          1 "sample_case\<lparr>status := ''finalized''\<rparr>" "''A''"
          "''The lease was renewed.''" 7 "sample_env ClientError"]
  by (simp add: sample_store_def sample_case_def sample_arg_def)

section \<open>Success and failure of the argument-round adjudication\<close>

lemma find_argument_append:
  "find_argument cid r s (db\<lparr>arguments := arguments db @ [a]\<rparr>) = None \<longleftrightarrow>
   find_argument cid r s db = None \<and> \<not> (arg_case_id a = cid \<and> arg_round a = r \<and> arg_side a = s)"
  by (auto simp: find_argument_None_iff)

lemma gvwa_success:
  assumes "cases db cid = Some c"
    and "prev_verdict_summary e (get_verdict_by_round cid (r - 1) db) = Inr p"
    and "reply e = Response (Some j) u"
    and "missing_fields j = Inr []"
    and "verdict_commit_ok e"
  shows "generate_verdict_with_arguments cid r e db =
           (Inr \<lparr>verdict_case_id = cid, verdict_round = r, verdict_json = j,
                 model_used = ''gpt-4o-mini'', tokens_used = u\<rparr>,
            (called db)\<lparr>verdicts := verdicts db @
               [\<lparr>verdict_case_id = cid, verdict_round = r, verdict_json = j,
                 model_used = ''gpt-4o-mini'', tokens_used = u\<rparr>]\<rparr>)"
  using assms
  by (simp add: generate_verdict_with_arguments_def build_verdict_with_arguments_prompt_def
      validate_argument_verdict_def Let_def)

lemma gvwa_failure:
  assumes "reply e = ClientError
           \<or> (\<exists>d u x. reply e = Response d u \<and> validate_argument_verdict d = Inl x)
           \<or> \<not> verdict_commit_ok e"
  shows "\<exists>err db'. generate_verdict_with_arguments cid r e db = (Inl err, db')"
  using assms
  by (auto simp: generate_verdict_with_arguments_def Let_def
      split: option.splits sum.splits oracle_response.splits)

section \<open>Waiting for the other side\<close>

text \<open>
  C8.  When one side's submission is admitted while the other side has no Argument for the
  current round, \<^verbatim>\<open>submit_argument\<close> returns the new Argument with no verdict and
  \<open>waiting_for_other_side = True\<close>; the store differs from the old one by the new Argument
  only: no oracle call is made, and the cases (status and \<open>current_round\<close>) and the verdicts
  are unchanged.
\<close>

theorem submit_argument_waiting:
  assumes "cases db cid = Some c"
    and "status c \<noteq> ''finalized''" and "status c \<noteq> ''draft''"
    and "current_round c < max_rounds c"
    and "\<not> (\<exists>a \<in> set (arguments db).
              arg_case_id a = cid \<and> arg_round a = current_round c \<and> arg_side a = side)"
    and "(side = ''A'' \<and> other = ''B'') \<or> (side = ''B'' \<and> other = ''A'')"
    and "\<not> (\<exists>a \<in> set (arguments db).
              arg_case_id a = cid \<and> arg_round a = current_round c \<and> arg_side a = other)"
    and "arg = \<lparr>arg_case_id = cid, arg_round = current_round c, arg_side = side,
                 argument_text = text, submitted_by = uid\<rparr>"
  shows "submit_argument cid side text uid e db =
           (Inr \<lparr>argument = arg, verdict = None, waiting_for_other_side = True\<rparr>,
            db\<lparr>arguments := arguments db @ [arg]\<rparr>)
         \<and> oracle_calls (snd (submit_argument cid side text uid e db)) = oracle_calls db
         \<and> verdicts (snd (submit_argument cid side text uid e db)) = verdicts db
         \<and> cases (snd (submit_argument cid side text uid e db)) = cases db"
proof -
  have n: "find_argument cid (current_round c) side db = None"
    using assms(5) by (simp add: find_argument_None_iff)
  have o: "find_argument cid (current_round c) other db = None"
    using assms(7) by (simp add: find_argument_None_iff)
  have "find_argument cid (current_round c) other (db\<lparr>arguments := arguments db @ [arg]\<rparr>) = None"
    using o assms(6,8) by (auto simp: find_argument_append)
  then have both: "\<not> (find_argument cid (current_round c) ''A'' (db\<lparr>arguments := arguments db @ [arg]\<rparr>) \<noteq> None
        \<and> find_argument cid (current_round c) ''B'' (db\<lparr>arguments := arguments db @ [arg]\<rparr>) \<noteq> None)"
    using assms(6) by auto
  have "submit_argument cid side text uid e db =
           (Inr \<lparr>argument = arg, verdict = None, waiting_for_other_side = True\<rparr>,
            db\<lparr>arguments := arguments db @ [arg]\<rparr>)"
    using assms(1-4) n both [unfolded assms(8)]
    by (auto simp: submit_argument_def Let_def assms(8))
  then show ?thesis by simp
qed

theorem submit_argument_waiting_witness:
  "submit_argument 1 ''A'' ''The lease was renewed.'' 7 (sample_env ClientError) (sample_store [])
     = (Inr \<lparr>argument = sample_arg ''A'', verdict = None, waiting_for_other_side = True\<rparr>,
        sample_store [sample_arg ''A''])
   \<and> current_round sample_case = 1
   \<and> get_verdict_by_round 1 1 (sample_store [sample_arg ''A'']) = None"
  using submit_argument_waiting [of "sample_store []" 1 sample_case "''A''" "''B''"
          "sample_arg ''A''" "''The lease was renewed.''" 7 "sample_env ClientError"]
  by (simp add: sample_store_def sample_case_def sample_arg_def get_verdict_by_round_def
      sample_verdict_def)

section \<open>Round numbering\<close>

lemma submit_argument_round_step:
  assumes "cases db cid = Some c"
    and "cases (snd (submit_argument cid side text uid e db)) cid = Some c'"
  shows "current_round c' = current_round c
         \<or> (current_round c' = current_round c + 1
            \<and> (\<exists>v \<in> set (verdicts (snd (submit_argument cid side text uid e db))).
                  verdict_case_id v = cid \<and> verdict_round v = current_round c))"
proof -
  let ?arg = "\<lparr>arg_case_id = cid, arg_round = current_round c, arg_side = side,
               argument_text = text, submitted_by = uid\<rparr>"
  let ?db1 = "db\<lparr>arguments := arguments db @ [?arg]\<rparr>"
  obtain res db2 where eq: "generate_verdict_with_arguments cid (current_round c) e ?db1 = (res, db2)"
    by (cases "generate_verdict_with_arguments cid (current_round c) e ?db1")
  show ?thesis
  proof (cases res)
    case (Inl err)
    with eq have "cases db2 = cases db" using gvwa_Inl [of cid "current_round c" e ?db1 err db2] by simp
    with assms eq Inl show ?thesis
      by (auto simp: submit_argument_def Let_def split: if_splits)
  next
    case (Inr v)
    with eq have "db2 = (called ?db1)\<lparr>verdicts := verdicts ?db1 @ [v]\<rparr> \<and> verdict_case_id v = cid
       \<and> verdict_round v = current_round c"
      using gvwa_Inr [of cid "current_round c" e ?db1 v db2] by simp
    with assms eq Inr show ?thesis
      by (auto simp: submit_argument_def Let_def called_def split: if_splits)
  qed
qed

text \<open>
  C3.  A submission that completes round \<open>r = current_round\<close> (the other side's Argument for
  \<open>r\<close> is there, the oracle's reply passes the validation and the verdict row commits)
  creates the Verdict numbered \<open>r\<close>, appends it to the verdicts, and sets \<open>current_round\<close>
  to \<open>r + 1\<close>.  Whatever the oracle does, the counter either stays or becomes \<open>r + 1\<close> with
  the Verdict of round \<open>r\<close> persisted.  The witness is scenario 4: in round 1 side B submits
  after side A, Verdict(round=1) is created and the counter becomes 2.
\<close>

theorem submit_argument_round_numbering:
  assumes "cases db cid = Some c"
    and "status c \<noteq> ''finalized''" and "status c \<noteq> ''draft''"
    and "current_round c < max_rounds c"
    and "\<not> (\<exists>a \<in> set (arguments db).
              arg_case_id a = cid \<and> arg_round a = current_round c \<and> arg_side a = side)"
    and "(side = ''A'' \<and> other = ''B'') \<or> (side = ''B'' \<and> other = ''A'')"
    and "\<exists>a \<in> set (arguments db).
              arg_case_id a = cid \<and> arg_round a = current_round c \<and> arg_side a = other"
    and "\<not> isl (prev_verdict_summary e (get_verdict_by_round cid (current_round c - 1) db))"
    and "reply e = Response (Some j) u"
    and "missing_fields j = Inr []"
    and "verdict_commit_ok e"
    and "arg = \<lparr>arg_case_id = cid, arg_round = current_round c, arg_side = side,
                 argument_text = text, submitted_by = uid\<rparr>"
    and "v = \<lparr>verdict_case_id = cid, verdict_round = current_round c, verdict_json = j,
               model_used = ''gpt-4o-mini'', tokens_used = u\<rparr>"
  shows "submit_argument cid side text uid e db =
           (Inr \<lparr>argument = arg, verdict = Some v, waiting_for_other_side = False\<rparr>,
            db\<lparr>arguments := arguments db @ [arg],
               verdicts := verdicts db @ [v],
               cases := (cases db)(cid \<mapsto> c\<lparr>current_round := current_round c + 1\<rparr>),
               oracle_calls := oracle_calls db + 1\<rparr>)
         \<and> (\<forall>e' c'. cases (snd (submit_argument cid side text uid e' db)) cid = Some c' \<longrightarrow>
               current_round c' = current_round c
               \<or> (current_round c' = current_round c + 1
                  \<and> (\<exists>w \<in> set (verdicts (snd (submit_argument cid side text uid e' db))).
                        verdict_case_id w = cid \<and> verdict_round w = current_round c)))"
proof (intro conjI allI impI)
  let ?db1 = "db\<lparr>arguments := arguments db @ [arg]\<rparr>"
  have n: "find_argument cid (current_round c) side db = None"
    using assms(5) by (simp add: find_argument_None_iff)
  have o: "find_argument cid (current_round c) other db \<noteq> None"
    using assms(7) by (simp add: find_argument_None_iff)
  have s: "find_argument cid (current_round c) side ?db1 \<noteq> None"
    using assms(12) by (simp add: find_argument_append)
  have o1: "find_argument cid (current_round c) other ?db1 \<noteq> None"
    using o by (simp add: find_argument_append)
  have both: "find_argument cid (current_round c) ''A'' ?db1 \<noteq> None
        \<and> find_argument cid (current_round c) ''B'' ?db1 \<noteq> None"
    using s o1 assms(6) by auto
  obtain p where p: "prev_verdict_summary e (get_verdict_by_round cid (current_round c - 1) ?db1) = Inr p"
    using assms(8) by (cases "prev_verdict_summary e (get_verdict_by_round cid (current_round c - 1) db)")
      (simp_all add: get_verdict_by_round_def)
  have g: "generate_verdict_with_arguments cid (current_round c) e ?db1 =
             (Inr v, (called ?db1)\<lparr>verdicts := verdicts ?db1 @ [v]\<rparr>)"
    unfolding assms(13)
    by (rule gvwa_success [OF _ p assms(9) assms(10) assms(11)]) (simp add: assms(1))
  show "submit_argument cid side text uid e db =
           (Inr \<lparr>argument = arg, verdict = Some v, waiting_for_other_side = False\<rparr>,
            db\<lparr>arguments := arguments db @ [arg],
               verdicts := verdicts db @ [v],
               cases := (cases db)(cid \<mapsto> c\<lparr>current_round := current_round c + 1\<rparr>),
               oracle_calls := oracle_calls db + 1\<rparr>)"
    using assms(1-4) n both [unfolded assms(12)] g [unfolded assms(12)]
    by (simp add: submit_argument_def Let_def assms(12) called_def)
next
  fix e' c'
  assume "cases (snd (submit_argument cid side text uid e' db)) cid = Some c'"
  with assms(1) show "current_round c' = current_round c
               \<or> (current_round c' = current_round c + 1
                  \<and> (\<exists>w \<in> set (verdicts (snd (submit_argument cid side text uid e' db))).
                        verdict_case_id w = cid \<and> verdict_round w = current_round c))"
    by (rule submit_argument_round_step)
qed

theorem submit_argument_round_numbering_witness:
  "submit_argument 1 ''B'' ''The lease was renewed.'' 7
      (sample_env (Response (Some (sample_json (JStr ''B'') (JNum (1 / 2)))) (Some 250)))
      (sample_store [sample_arg ''A''])
     = (Inr \<lparr>argument = sample_arg ''B'',
             verdict = Some \<lparr>verdict_case_id = 1, verdict_round = 1,
                             verdict_json = sample_json (JStr ''B'') (JNum (1 / 2)),
                             model_used = ''gpt-4o-mini'', tokens_used = Some 250\<rparr>,
             waiting_for_other_side = False\<rparr>,
        \<lparr>cases = [1 \<mapsto> sample_case\<lparr>current_round := 2\<rparr>],
         arguments = [sample_arg ''A'', sample_arg ''B''],
         verdicts = [sample_verdict 0,
                     \<lparr>verdict_case_id = 1, verdict_round = 1,
                      verdict_json = sample_json (JStr ''B'') (JNum (1 / 2)),
                      model_used = ''gpt-4o-mini'', tokens_used = Some 250\<rparr>],
         documents = [sample_doc ''A'' (Some ''lease''), sample_doc ''B'' None],
         oracle_calls = 2\<rparr>)"
  using submit_argument_round_numbering [of "sample_store [sample_arg ''A'']" 1 sample_case
          "''B''" "''A''"
          "sample_env (Response (Some (sample_json (JStr ''B'') (JNum (1 / 2)))) (Some 250))"
          "sample_json (JStr ''B'') (JNum (1 / 2))" "Some 250"
          "sample_arg ''B''" "''The lease was renewed.''" 7]
  by (simp add: sample_store_def sample_case_def sample_arg_def sample_env_def sample_json_def
      sample_verdict_def get_verdict_by_round_def prev_verdict_summary_def required_fields_def)

section \<open>Failed adjudication\<close>

text \<open>
  C4.  When both sides have an admitted Argument for the current round and the adjudication
  fails (the oracle call raises, the reply does not validate, or the verdict row does not
  commit), \<^verbatim>\<open>submit_argument\<close> raises and leaves a store in which both Arguments are
  persisted, and the cases (so \<open>current_round\<close>) and the verdicts are unchanged.  The
  submissions are not consumed, but nothing retries the adjudication: the only call of
  \<^verbatim>\<open>generate_verdict_with_arguments\<close> sits behind the duplicate check, so on that store a
  further submission of side A or of side B fails with the duplicate-submission error and
  changes nothing, whatever the oracle would reply.
\<close>

theorem failed_adjudication_keeps_arguments:
  assumes "cases db cid = Some c"
    and "status c \<noteq> ''finalized''" and "status c \<noteq> ''draft''"
    and "current_round c < max_rounds c"
    and "\<not> (\<exists>a \<in> set (arguments db).
              arg_case_id a = cid \<and> arg_round a = current_round c \<and> arg_side a = side)"
    and "(side = ''A'' \<and> other = ''B'') \<or> (side = ''B'' \<and> other = ''A'')"
    and "\<exists>a \<in> set (arguments db).
              arg_case_id a = cid \<and> arg_round a = current_round c \<and> arg_side a = other"
    and "reply e = ClientError
         \<or> (\<exists>d u x. reply e = Response d u \<and> validate_argument_verdict d = Inl x)
         \<or> \<not> verdict_commit_ok e"
    and "arg = \<lparr>arg_case_id = cid, arg_round = current_round c, arg_side = side,
                 argument_text = text, submitted_by = uid\<rparr>"
  shows "\<exists>err db'.
           submit_argument cid side text uid e db = (Inl (FailedAfterArguments err), db')
           \<and> arguments db' = arguments db @ [arg]
           \<and> find_argument cid (current_round c) ''A'' db' \<noteq> None
           \<and> find_argument cid (current_round c) ''B'' db' \<noteq> None
           \<and> cases db' = cases db
           \<and> verdicts db' = verdicts db
           \<and> (\<forall>s text2 uid2 e2. s = ''A'' \<or> s = ''B'' \<longrightarrow>
                 submit_argument cid s text2 uid2 e2 db'
                   = (Inl (AlreadySubmitted s (current_round c)), db'))"
proof -
  let ?r = "current_round c"
  let ?db1 = "db\<lparr>arguments := arguments db @ [arg]\<rparr>"
  have n: "find_argument cid ?r side db = None"
    using assms(5) by (simp add: find_argument_None_iff)
  have o: "find_argument cid ?r other db \<noteq> None"
    using assms(7) by (simp add: find_argument_None_iff)
  have s: "find_argument cid ?r side ?db1 \<noteq> None"
    using assms(9) by (simp add: find_argument_append)
  have o1: "find_argument cid ?r other ?db1 \<noteq> None"
    using o by (simp add: find_argument_append)
  have both: "find_argument cid ?r ''A'' ?db1 \<noteq> None \<and> find_argument cid ?r ''B'' ?db1 \<noteq> None"
    using s o1 assms(6) by auto
  obtain err db' where g: "generate_verdict_with_arguments cid ?r e ?db1 = (Inl err, db')"
    using gvwa_failure [OF assms(8), of cid ?r ?db1] by blast
  have fr: "verdicts db' = verdicts ?db1 \<and> cases db' = cases ?db1 \<and> arguments db' = arguments ?db1
           \<and> documents db' = documents ?db1"
    using gvwa_Inl [OF g] .
  have sub: "submit_argument cid side text uid e db = (Inl (FailedAfterArguments err), db')"
    using assms(1-4) n both [unfolded assms(9)] g [unfolded assms(9)]
    by (simp add: submit_argument_def Let_def)
  have fa: "find_argument cid ?r ''A'' db' \<noteq> None \<and> find_argument cid ?r ''B'' db' \<noteq> None"
    using both fr by (simp add: find_argument_def)
  have c: "cases db' cid = Some c" using fr assms(1) by simp
  have dup: "\<forall>s text2 uid2 e2. s = ''A'' \<or> s = ''B'' \<longrightarrow>
                 submit_argument cid s text2 uid2 e2 db' = (Inl (AlreadySubmitted s ?r), db')"
  proof (intro allI impI)
    fix s text2 uid2 e2
    assume "s = ''A'' \<or> s = ''B''"
    with fa have "find_argument cid ?r s db' \<noteq> None" by auto
    with c assms(2-4)
    show "submit_argument cid s text2 uid2 e2 db' = (Inl (AlreadySubmitted s ?r), db')"
      by (simp add: submit_argument_def Let_def)
  qed
  from sub fr fa dup show ?thesis by simp
qed

theorem failed_adjudication_keeps_arguments_witness:
  "\<exists>err db'.
      submit_argument 1 ''B'' ''The lease was renewed.'' 7
        (sample_env (Response (Some (JObj [(''summary'', JStr ''s'')])) None))
        (sample_store [sample_arg ''A''])
        = (Inl (FailedAfterArguments err), db')
      \<and> arguments db' = [sample_arg ''A'', sample_arg ''B'']
      \<and> cases db' = [1 \<mapsto> sample_case] \<and> verdicts db' = [sample_verdict 0]
      \<and> submit_argument 1 ''A'' ''Again.'' 7
           (sample_env (Response (Some (sample_json (JStr ''A'') (JNum (4 / 5)))) None)) db'
          = (Inl (AlreadySubmitted ''A'' 1), db')"
proof -
  let ?e = "sample_env (Response (Some (JObj [(''summary'', JStr ''s'')])) None)"
  have v: "validate_argument_verdict (Some (JObj [(''summary'', JStr ''s'')]))
            = Inl (MissingFields [''winner'', ''confidence_score'', ''issues'',
                     ''final_decision'', ''key_evidence_cited''])"
    by (simp add: validate_argument_verdict_def required_fields_def)
  have h8: "reply ?e = ClientError
         \<or> (\<exists>d u x. reply ?e = Response d u \<and> validate_argument_verdict d = Inl x)
         \<or> \<not> verdict_commit_ok ?e"
    using v by (simp add: sample_env_def)
  have h1: "cases (sample_store [sample_arg ''A'']) 1 = Some sample_case"
    by (simp add: sample_store_def)
  have h5: "\<not> (\<exists>a \<in> set (arguments (sample_store [sample_arg ''A''])).
              arg_case_id a = 1 \<and> arg_round a = current_round sample_case \<and> arg_side a = ''B'')"
    by (simp add: sample_store_def sample_arg_def)
  have h7: "\<exists>a \<in> set (arguments (sample_store [sample_arg ''A''])).
              arg_case_id a = 1 \<and> arg_round a = current_round sample_case \<and> arg_side a = ''A''"
    by (simp add: sample_store_def sample_arg_def sample_case_def)
  have h9: "sample_arg ''B'' = \<lparr>arg_case_id = 1, arg_round = current_round sample_case,
                 arg_side = ''B'', argument_text = ''The lease was renewed.'', submitted_by = 7\<rparr>"
    by (simp add: sample_arg_def sample_case_def)
  obtain err db' where r:
    "submit_argument 1 ''B'' ''The lease was renewed.'' 7 ?e (sample_store [sample_arg ''A''])
       = (Inl (FailedAfterArguments err), db')"
    "arguments db' = arguments (sample_store [sample_arg ''A'']) @ [sample_arg ''B'']"
    "cases db' = cases (sample_store [sample_arg ''A''])"
    "verdicts db' = verdicts (sample_store [sample_arg ''A''])"
    "\<forall>s text2 uid2 e2. s = ''A'' \<or> s = ''B'' \<longrightarrow>
        submit_argument 1 s text2 uid2 e2 db'
          = (Inl (AlreadySubmitted s (current_round sample_case)), db')"
    using failed_adjudication_keeps_arguments [OF h1 _ _ _ h5 _ h7 h8 h9]
    by (auto simp: sample_case_def)
  have "submit_argument 1 ''A'' ''Again.'' 7
           (sample_env (Response (Some (sample_json (JStr ''A'') (JNum (4 / 5)))) None)) db'
          = (Inl (AlreadySubmitted ''A'' 1), db')"
    using r(5) by (simp add: sample_case_def)
  with r(1-4) show ?thesis by (auto simp: sample_store_def)
qed

theorem adjudication_retry_counterexample:
  "submit_argument 1 ''B'' ''The lease was renewed.'' 7 (sample_env ClientError)
      (sample_store [sample_arg ''A''])
     = (Inl (FailedAfterArguments (FailedToGenerate OracleCallFailed)),
        (sample_store [sample_arg ''A'', sample_arg ''B''])\<lparr>oracle_calls := 2\<rparr>)
   \<and> submit_argument 1 ''A'' ''The lease was renewed.'' 7
        (sample_env (Response (Some (sample_json (JStr ''A'') (JNum (4 / 5)))) (Some 250)))
        ((sample_store [sample_arg ''A'', sample_arg ''B''])\<lparr>oracle_calls := 2\<rparr>)
     = (Inl (AlreadySubmitted ''A'' 1),
        (sample_store [sample_arg ''A'', sample_arg ''B''])\<lparr>oracle_calls := 2\<rparr>)
   \<and> submit_argument 1 ''B'' ''The lease was renewed.'' 7
        (sample_env (Response (Some (sample_json (JStr ''A'') (JNum (4 / 5)))) (Some 250)))
        ((sample_store [sample_arg ''A'', sample_arg ''B''])\<lparr>oracle_calls := 2\<rparr>)
     = (Inl (AlreadySubmitted ''B'' 1),
        (sample_store [sample_arg ''A'', sample_arg ''B''])\<lparr>oracle_calls := 2\<rparr>)"
proof (intro conjI)
  show "submit_argument 1 ''B'' ''The lease was renewed.'' 7 (sample_env ClientError)
      (sample_store [sample_arg ''A''])
     = (Inl (FailedAfterArguments (FailedToGenerate OracleCallFailed)),
        (sample_store [sample_arg ''A'', sample_arg ''B''])\<lparr>oracle_calls := 2\<rparr>)"
    by (simp add: submit_argument_def generate_verdict_with_arguments_def Let_def
        sample_store_def sample_case_def sample_arg_def sample_env_def find_argument_def
        build_verdict_with_arguments_prompt_def prev_verdict_summary_def
        get_verdict_by_round_def sample_verdict_def sample_json_def called_def)
  show "submit_argument 1 ''A'' ''The lease was renewed.'' 7
        (sample_env (Response (Some (sample_json (JStr ''A'') (JNum (4 / 5)))) (Some 250)))
        ((sample_store [sample_arg ''A'', sample_arg ''B''])\<lparr>oracle_calls := 2\<rparr>)
     = (Inl (AlreadySubmitted ''A'' 1),
        (sample_store [sample_arg ''A'', sample_arg ''B''])\<lparr>oracle_calls := 2\<rparr>)"
    by (simp add: submit_argument_def Let_def sample_store_def sample_case_def sample_arg_def
        find_argument_def)
  show "submit_argument 1 ''B'' ''The lease was renewed.'' 7
        (sample_env (Response (Some (sample_json (JStr ''A'') (JNum (4 / 5)))) (Some 250)))
        ((sample_store [sample_arg ''A'', sample_arg ''B''])\<lparr>oracle_calls := 2\<rparr>)
     = (Inl (AlreadySubmitted ''B'' 1),
        (sample_store [sample_arg ''A'', sample_arg ''B''])\<lparr>oracle_calls := 2\<rparr>)"
    by (simp add: submit_argument_def Let_def sample_store_def sample_case_def sample_arg_def
        find_argument_def)
qed

section \<open>The initial verdict\<close>

lemma get_verdict_by_round_None_iff:
  "get_verdict_by_round cid r db = None \<longleftrightarrow>
   \<not> (\<exists>v \<in> set (verdicts db). verdict_case_id v = cid \<and> verdict_round v = r)"
  by (auto simp: get_verdict_by_round_def find_None_iff)

lemma initial_doc_entries_ok:
  "\<forall>d \<in> set docs. full_text d \<noteq> None \<Longrightarrow> \<exists>xs. initial_doc_entries docs = Inr xs"
  by (induction docs) (auto simp: initial_doc_entry_def)

lemma build_verdict_prompt_ok:
  assumes "\<forall>d \<in> set a. full_text d \<noteq> None" and "\<forall>d \<in> set b. full_text d \<noteq> None"
  shows "\<exists>p. build_verdict_prompt c a b r = Inr p"
proof -
  obtain xs ys where "initial_doc_entries a = Inr xs" and "initial_doc_entries b = Inr ys"
    using initial_doc_entries_ok [OF assms(1)] initial_doc_entries_ok [OF assms(2)] by blast
  then show ?thesis by (simp add: build_verdict_prompt_def)
qed

lemma giv_success:
  assumes "cases db cid = Some c" and "get_verdict_by_round cid 0 db = None"
    and "ready_docs cid ''A'' db \<noteq> []" and "ready_docs cid ''B'' db \<noteq> []"
    and "\<forall>d \<in> set (ready_docs cid ''A'' db @ ready_docs cid ''B'' db). full_text d \<noteq> None"
    and "reply e = Response (Some j) u" and "parse_verdict_json (Some j) = Inr j"
    and "verdict_commit_ok e"
  shows "generate_initial_verdict cid e db =
           (Inr \<lparr>verdict_case_id = cid, verdict_round = 0, verdict_json = j,
                 model_used = ''gpt-4o-mini'', tokens_used = u\<rparr>,
            (called db)\<lparr>verdicts := verdicts db @
                 [\<lparr>verdict_case_id = cid, verdict_round = 0, verdict_json = j,
                   model_used = ''gpt-4o-mini'', tokens_used = u\<rparr>],
               cases := (cases db)(cid \<mapsto> c\<lparr>status := ''in_progress'', current_round := 1\<rparr>)\<rparr>)"
proof -
  obtain p where "build_verdict_prompt c (ready_docs cid ''A'' db) (ready_docs cid ''B'' db) 0 = Inr p"
    using build_verdict_prompt_ok [of "ready_docs cid ''A'' db" "ready_docs cid ''B'' db" c 0] assms(5)
    by auto
  with assms show ?thesis
    by (simp add: generate_initial_verdict_def fetch_case_context_def validate_documents_def Let_def)
qed

lemma giv_Inr:
  assumes "generate_initial_verdict cid e db = (Inr v, db')"
  shows "\<exists>c. cases db cid = Some c \<and> get_verdict_by_round cid 0 db = None
           \<and> verdict_case_id v = cid \<and> verdict_round v = 0
           \<and> db' = (called db)\<lparr>verdicts := verdicts db @ [v],
                 cases := (cases db)(cid \<mapsto> c\<lparr>status := ''in_progress'', current_round := 1\<rparr>)\<rparr>"
  using assms
  by (auto simp: generate_initial_verdict_def fetch_case_context_def Let_def
      split: if_splits option.splits sum.splits oracle_response.splits prod.splits)

lemma giv_Inl:
  assumes "generate_initial_verdict cid e db = (Inl err, db')"
  shows "db' = db \<or> db' = called db"
  using assms
  by (auto simp: generate_initial_verdict_def fetch_case_context_def Let_def
      split: if_splits option.splits sum.splits oracle_response.splits prod.splits)

text \<open>
  C7.  \<^verbatim>\<open>generate_initial_verdict\<close> checks in this order: a round-0 verdict that exists,
  the case, the documents of side A, those of side B.  So on an existing case that has no
  round-0 verdict yet it fails with the validation error "Side A has not submitted any
  documents" when side A has no ready document, and with the one of side B when side A has
  one and side B has none; the store is unchanged.  With ready documents on both sides
  whose text is extracted, and a reply that validates and commits, it succeeds; and
  whenever it succeeds the Verdict has round 0, is appended to the verdicts, and the case
  has status \<open>in_progress\<close> and \<open>current_round = 1\<close>.  Without the two conditions the error
  is another one: with no document at all side B gets the error of side A, and a case that
  has its round-0 verdict gets "already exists" whatever its documents are.
\<close>

theorem generate_initial_verdict_documents:
  assumes "cases db cid = Some c" and "get_verdict_by_round cid 0 db = None"
  shows "(ready_docs cid ''A'' db = [] \<longrightarrow>
            generate_initial_verdict cid e db
              = (Inl (ValueError ''Side A has not submitted any documents''), db))
       \<and> (ready_docs cid ''A'' db \<noteq> [] \<and> ready_docs cid ''B'' db = [] \<longrightarrow>
            generate_initial_verdict cid e db
              = (Inl (ValueError ''Side B has not submitted any documents''), db))
       \<and> (ready_docs cid ''A'' db \<noteq> [] \<and> ready_docs cid ''B'' db \<noteq> []
          \<and> (\<forall>d \<in> set (ready_docs cid ''A'' db @ ready_docs cid ''B'' db). full_text d \<noteq> None)
          \<and> reply e = Response (Some j) u \<and> parse_verdict_json (Some j) = Inr j
          \<and> verdict_commit_ok e \<longrightarrow>
            (\<exists>v db'. generate_initial_verdict cid e db = (Inr v, db')))
       \<and> (\<forall>v db'. generate_initial_verdict cid e db = (Inr v, db') \<longrightarrow>
            verdict_case_id v = cid \<and> verdict_round v = 0
            \<and> verdicts db' = verdicts db @ [v]
            \<and> cases db' cid = Some (c\<lparr>status := ''in_progress'', current_round := 1\<rparr>))"
proof -
  have a: "ready_docs cid ''A'' db = [] \<longrightarrow>
            generate_initial_verdict cid e db
              = (Inl (ValueError ''Side A has not submitted any documents''), db)"
    using assms
    by (simp add: generate_initial_verdict_def fetch_case_context_def validate_documents_def)
  have b: "ready_docs cid ''A'' db \<noteq> [] \<and> ready_docs cid ''B'' db = [] \<longrightarrow>
            generate_initial_verdict cid e db
              = (Inl (ValueError ''Side B has not submitted any documents''), db)"
    using assms
    by (simp add: generate_initial_verdict_def fetch_case_context_def validate_documents_def)
  have s: "ready_docs cid ''A'' db \<noteq> [] \<and> ready_docs cid ''B'' db \<noteq> []
          \<and> (\<forall>d \<in> set (ready_docs cid ''A'' db @ ready_docs cid ''B'' db). full_text d \<noteq> None)
          \<and> reply e = Response (Some j) u \<and> parse_verdict_json (Some j) = Inr j
          \<and> verdict_commit_ok e \<longrightarrow>
            (\<exists>v db'. generate_initial_verdict cid e db = (Inr v, db'))"
    using giv_success [OF assms, of e j u] by blast
  have r: "\<forall>v db'. generate_initial_verdict cid e db = (Inr v, db') \<longrightarrow>
            verdict_case_id v = cid \<and> verdict_round v = 0
            \<and> verdicts db' = verdicts db @ [v]
            \<and> cases db' cid = Some (c\<lparr>status := ''in_progress'', current_round := 1\<rparr>)"
  proof (intro allI impI)
    fix v db'
    assume "generate_initial_verdict cid e db = (Inr v, db')"
    from giv_Inr [OF this] assms(1)
    show "verdict_case_id v = cid \<and> verdict_round v = 0
            \<and> verdicts db' = verdicts db @ [v]
            \<and> cases db' cid = Some (c\<lparr>status := ''in_progress'', current_round := 1\<rparr>)"
      by (auto simp: called_def)
  qed
  from a b s r show ?thesis by blast
qed

theorem generate_initial_verdict_documents_witness:
  "generate_initial_verdict 1 (sample_env ClientError) (draft_store [])
     = (Inl (ValueError ''Side A has not submitted any documents''), draft_store [])
   \<and> generate_initial_verdict 1 (sample_env ClientError) (draft_store [sample_doc ''A'' None])
     = (Inl (ValueError ''Side B has not submitted any documents''),
        draft_store [sample_doc ''A'' None])
   \<and> (\<exists>v db'. generate_initial_verdict 1
          (sample_env (Response (Some (sample_json (JStr ''A'') (JNum (4 / 5)))) (Some 300)))
          (draft_store sample_docs) = (Inr v, db')
        \<and> verdict_round v = 0 \<and> verdicts db' = [v]
        \<and> cases db' 1 = Some sample_case)"
proof (intro conjI)
  let ?c = "sample_case\<lparr>status := ''draft'', current_round := 0\<rparr>"
  show "generate_initial_verdict 1 (sample_env ClientError) (draft_store [])
     = (Inl (ValueError ''Side A has not submitted any documents''), draft_store [])"
    using generate_initial_verdict_documents [of "draft_store []" 1 ?c "sample_env ClientError"]
    by (simp add: draft_store_def get_verdict_by_round_def ready_docs_def)
  show "generate_initial_verdict 1 (sample_env ClientError) (draft_store [sample_doc ''A'' None])
     = (Inl (ValueError ''Side B has not submitted any documents''),
        draft_store [sample_doc ''A'' None])"
    using generate_initial_verdict_documents [of "draft_store [sample_doc ''A'' None]" 1 ?c
        "sample_env ClientError"]
    by (simp add: draft_store_def get_verdict_by_round_def ready_docs_def sample_doc_def)
  let ?e = "sample_env (Response (Some (sample_json (JStr ''A'') (JNum (4 / 5)))) (Some 300))"
  have p: "parse_verdict_json (Some (sample_json (JStr ''A'') (JNum (4 / 5))))
            = Inr (sample_json (JStr ''A'') (JNum (4 / 5)))"
    by (simp add: parse_verdict_json_def sample_json_def required_fields_def dict_get_def)
  show "\<exists>v db'. generate_initial_verdict 1 ?e (draft_store sample_docs) = (Inr v, db')
        \<and> verdict_round v = 0 \<and> verdicts db' = [v]
        \<and> cases db' 1 = Some sample_case"
    using generate_initial_verdict_documents [of "draft_store sample_docs" 1 ?c ?e
        "sample_json (JStr ''A'') (JNum (4 / 5))" "Some 300"] p
    by (auto simp: draft_store_def sample_case_def sample_env_def sample_docs_def sample_doc_def
        get_verdict_by_round_def ready_docs_def)
qed

theorem initial_verdict_documents_counterexample:
  "ready_docs 1 ''B'' (draft_store []) = []
   \<and> generate_initial_verdict 1 (sample_env ClientError) (draft_store [])
       = (Inl (ValueError ''Side A has not submitted any documents''), draft_store [])
   \<and> fst (generate_initial_verdict 1 (sample_env ClientError) (draft_store []))
       \<noteq> Inl (ValueError ''Side B has not submitted any documents'')
   \<and> ready_docs 1 ''A'' ((sample_store [])\<lparr>documents := []\<rparr>) = []
   \<and> generate_initial_verdict 1 (sample_env ClientError) ((sample_store [])\<lparr>documents := []\<rparr>)
       = (Inl VerdictAlreadyExists, (sample_store [])\<lparr>documents := []\<rparr>)
   \<and> fst (generate_initial_verdict 1 (sample_env ClientError)
            ((sample_store [])\<lparr>documents := []\<rparr>))
       \<noteq> Inl (ValueError ''Side A has not submitted any documents'')"
  by (simp add: generate_initial_verdict_def fetch_case_context_def validate_documents_def
      ready_docs_def get_verdict_by_round_def draft_store_def sample_store_def
      sample_verdict_def)

section \<open>Document excerpts of the argument-round prompt\<close>

lemma doc_excerpt_length: "length (doc_excerpt doc) \<le> 800"
  by (simp add: doc_excerpt_def)

lemma doc_excerpt_null: "full_text doc = None \<Longrightarrow> doc_excerpt doc = []"
  by (simp add: doc_excerpt_def)

lemma argument_prompt_isl:
  "isl (build_verdict_with_arguments_prompt e c a b xs ys pv r) = isl (prev_verdict_summary e pv)"
  by (cases "prev_verdict_summary e pv") (simp_all add: build_verdict_with_arguments_prompt_def)

lemma argument_prompt_shape:
  assumes "prev_verdict_summary e pv = Inr prev"
  shows "\<exists>pre mid post. build_verdict_with_arguments_prompt e c a b xs ys pv r
           = Inr (pre @ doc_summary a @ mid @ doc_summary b @ post)"
proof -
  let ?pre = "''You are an AI judge presiding over a mock trial case. This is Round ''
               @ str_int r @ '' of arguments.\<newline>\<newline>''
               @ case_information c
               @ ''\<newline>**CURRENT ROUND:** '' @ str_int r @ ''\<newline>\<newline>''
               @ prev @ ''\<newline>\<newline>''
               @ ''**SIDE A EVIDENCE:**\<newline>''"
  let ?mid = "''\<newline>\<newline>''
               @ ''**SIDE A ARGUMENTS (Round '' @ str_int r @ ''):**\<newline>''
               @ arg_summary xs @ ''\<newline>\<newline>''
               @ ''**SIDE B EVIDENCE:**\<newline>''"
  let ?post = "''\<newline>\<newline>''
               @ ''**SIDE B ARGUMENTS (Round '' @ str_int r @ ''):**\<newline>''
               @ arg_summary ys @ ''\<newline>\<newline>''
               @ argument_instructions"
  have "build_verdict_with_arguments_prompt e c a b xs ys pv r
           = Inr (?pre @ doc_summary a @ ?mid @ doc_summary b @ ?post)"
    using assms by (simp add: build_verdict_with_arguments_prompt_def)
  then show ?thesis by blast
qed

text \<open>
  C10.  In \<^verbatim>\<open>build_verdict_with_arguments_prompt\<close> every document is rendered with an
  excerpt of at most 800 characters, the empty excerpt when its \<^verbatim>\<open>full_text\<close> is null.
  Whether the function raises does not depend on the documents at all: it raises exactly
  when the summary of the previous verdict does.  When it returns, the prompt contains the
  two evidence sections, each the entries of its documents joined by a blank line.
\<close>

theorem argument_prompt_excerpts:
  "(\<forall>doc \<in> set (side_a_docs @ side_b_docs).
      length (doc_excerpt doc) \<le> 800 \<and> (full_text doc = None \<longrightarrow> doc_excerpt doc = []))
   \<and> isl (build_verdict_with_arguments_prompt e c side_a_docs side_b_docs side_a_args
             side_b_args previous_verdict round_number)
       = isl (prev_verdict_summary e previous_verdict)
   \<and> (\<not> isl (prev_verdict_summary e previous_verdict) \<longrightarrow>
        (\<exists>pre mid post.
           build_verdict_with_arguments_prompt e c side_a_docs side_b_docs side_a_args
             side_b_args previous_verdict round_number
           = Inr (pre @ doc_summary side_a_docs @ mid @ doc_summary side_b_docs @ post)))
   \<and> doc_summary side_a_docs
       = join ''\<newline>\<newline>''
           (map (\<lambda>doc. ''**'' @ doc_title doc @ ''** ('' @ file_type doc @ '')\<newline>''
                        @ doc_excerpt doc) side_a_docs)
   \<and> doc_summary side_b_docs
       = join ''\<newline>\<newline>''
           (map (\<lambda>doc. ''**'' @ doc_title doc @ ''** ('' @ file_type doc @ '')\<newline>''
                        @ doc_excerpt doc) side_b_docs)"
proof -
  have 1: "\<forall>doc \<in> set (side_a_docs @ side_b_docs).
      length (doc_excerpt doc) \<le> 800 \<and> (full_text doc = None \<longrightarrow> doc_excerpt doc = [])"
    using doc_excerpt_length doc_excerpt_null by blast
  have 3: "\<not> isl (prev_verdict_summary e previous_verdict) \<longrightarrow>
        (\<exists>pre mid post.
           build_verdict_with_arguments_prompt e c side_a_docs side_b_docs side_a_args
             side_b_args previous_verdict round_number
           = Inr (pre @ doc_summary side_a_docs @ mid @ doc_summary side_b_docs @ post))"
  proof
    assume "\<not> isl (prev_verdict_summary e previous_verdict)"
    then obtain prev where "prev_verdict_summary e previous_verdict = Inr prev"
      by (cases "prev_verdict_summary e previous_verdict") simp_all
    then show "\<exists>pre mid post.
           build_verdict_with_arguments_prompt e c side_a_docs side_b_docs side_a_args
             side_b_args previous_verdict round_number
           = Inr (pre @ doc_summary side_a_docs @ mid @ doc_summary side_b_docs @ post)"
      by (rule argument_prompt_shape)
  qed
  have 4: "\<And>docs. doc_summary docs
       = join ''\<newline>\<newline>''
           (map (\<lambda>doc. ''**'' @ doc_title doc @ ''** ('' @ file_type doc @ '')\<newline>''
                        @ doc_excerpt doc) docs)"
    by (simp add: doc_summary_def doc_entry_def [abs_def])
  from 1 argument_prompt_isl 3 4 show ?thesis by blast
qed

theorem argument_prompt_excerpts_witness:
  "doc_excerpt (sample_doc ''B'' None) = []
   \<and> length (doc_excerpt (sample_doc ''A'' (Some (replicate 1000 CHR ''x'')))) = 800
   \<and> \<not> isl (build_verdict_with_arguments_prompt (sample_env ClientError) sample_case
             [sample_doc ''A'' (Some (replicate 1000 CHR ''x''))] [sample_doc ''B'' None]
             [sample_arg ''A''] [sample_arg ''B''] (Some (sample_verdict 0)) 1)"
  using argument_prompt_excerpts [of "[sample_doc ''A'' (Some (replicate 1000 CHR ''x''))]"
      "[sample_doc ''B'' None]" "sample_env ClientError" sample_case "[sample_arg ''A'']"
      "[sample_arg ''B'']" "Some (sample_verdict 0)" 1]
  by (simp add: sample_doc_def doc_excerpt_def prev_verdict_summary_def sample_verdict_def
      sample_json_def)

section \<open>Validation of the oracle's reply\<close>





lemma missing_fields_non_obj:
  "\<forall>kvs. j \<noteq> JObj kvs \<Longrightarrow> missing_fields j = Inr [] \<Longrightarrow> subscript j k = Inl TypeError"
  by (cases j) simp_all















section \<open>The round counter and the verdicts of a case\<close>

lemma rounds_in_stepD_None:
  "rounds_in_step db \<Longrightarrow> cases db k = None \<Longrightarrow> verdict_rounds k db = []"
  unfolding rounds_in_step_def by (erule allE [of _ k]) simp

lemma rounds_in_stepD_Some:
  "rounds_in_step db \<Longrightarrow> cases db k = Some c \<Longrightarrow>
   0 \<le> current_round c \<and> current_round c \<le> max_rounds c \<and> 1 \<le> max_rounds c
   \<and> verdict_rounds k db = [0 .. current_round c - 1]"
  unfolding rounds_in_step_def by (erule allE [of _ k]) simp

lemma rounds_in_stepI:
  assumes "\<And>k. cases db k = None \<Longrightarrow> verdict_rounds k db = []"
    and "\<And>k c. cases db k = Some c \<Longrightarrow>
           0 \<le> current_round c \<and> current_round c \<le> max_rounds c \<and> 1 \<le> max_rounds c
           \<and> verdict_rounds k db = [0 .. current_round c - 1]"
  shows "rounds_in_step db"
  unfolding rounds_in_step_def using assms by (simp split: option.split)

lemma verdict_rounds_same:
  "verdicts db' = verdicts db \<Longrightarrow> verdict_rounds k db' = verdict_rounds k db"
  by (simp add: verdict_rounds_def case_verdicts_def)

lemma verdict_rounds_append:
  "verdicts db' = verdicts db @ [v] \<Longrightarrow>
   verdict_rounds k db' =
     (if verdict_case_id v = k then verdict_rounds k db @ [verdict_round v]
      else verdict_rounds k db)"
  by (simp add: verdict_rounds_def case_verdicts_def)

lemma rounds_in_step_same:
  assumes "rounds_in_step db" and "cases db' = cases db" and "verdicts db' = verdicts db"
  shows "rounds_in_step db'"
proof (rule rounds_in_stepI)
  fix k assume "cases db' k = None"
  then show "verdict_rounds k db' = []"
    using assms rounds_in_stepD_None [of db k] verdict_rounds_same [of db' db k] by simp
next
  fix k c assume "cases db' k = Some c"
  then show "0 \<le> current_round c \<and> current_round c \<le> max_rounds c \<and> 1 \<le> max_rounds c
           \<and> verdict_rounds k db' = [0 .. current_round c - 1]"
    using assms rounds_in_stepD_Some [of db k c] verdict_rounds_same [of db' db k] by simp
qed

lemma rounds_in_step_case_upd:
  assumes "rounds_in_step db" and "cases db cid = Some c"
    and "current_round c' = current_round c" and "max_rounds c' = max_rounds c"
    and "verdicts db' = verdicts db" and "cases db' = (cases db)(cid \<mapsto> c')"
  shows "rounds_in_step db'"
proof (rule rounds_in_stepI)
  fix k assume "cases db' k = None"
  with assms(6) have "cases db k = None" by (simp split: if_splits)
  then show "verdict_rounds k db' = []"
    using assms(1,5) rounds_in_stepD_None [of db k] verdict_rounds_same [of db' db k] by simp
next
  fix k x assume h: "cases db' k = Some x"
  show "0 \<le> current_round x \<and> current_round x \<le> max_rounds x \<and> 1 \<le> max_rounds x
           \<and> verdict_rounds k db' = [0 .. current_round x - 1]"
  proof (cases "k = cid")
    case True
    with h assms(6) have "x = c'" by simp
    with True assms show ?thesis
      using rounds_in_stepD_Some [of db cid c] verdict_rounds_same [of db' db cid] by simp
  next
    case False
    with h assms(6) have "cases db k = Some x" by simp
    then show ?thesis
      using assms(1,5) rounds_in_stepD_Some [of db k x] verdict_rounds_same [of db' db k] by simp
  qed
qed

lemma rounds_in_step_append:
  assumes "rounds_in_step db" and "cases db cid = Some c"
    and "verdict_case_id v = cid" and "verdict_round v = current_round c"
    and "current_round c < max_rounds c"
    and "current_round c' = current_round c + 1" and "max_rounds c' = max_rounds c"
    and "verdicts db' = verdicts db @ [v]" and "cases db' = (cases db)(cid \<mapsto> c')"
  shows "rounds_in_step db'"
proof (rule rounds_in_stepI)
  fix k assume n: "cases db' k = None"
  with assms(9) have "k \<noteq> cid" and "cases db k = None" by (auto split: if_splits)
  then show "verdict_rounds k db' = []"
    using assms(1,3,8) rounds_in_stepD_None [of db k] verdict_rounds_append [of db' db v k]
    by simp
next
  fix k x assume h: "cases db' k = Some x"
  show "0 \<le> current_round x \<and> current_round x \<le> max_rounds x \<and> 1 \<le> max_rounds x
           \<and> verdict_rounds k db' = [0 .. current_round x - 1]"
  proof (cases "k = cid")
    case True
    with h assms(9) have x: "x = c'" by simp
    have d: "0 \<le> current_round c \<and> current_round c \<le> max_rounds c \<and> 1 \<le> max_rounds c
           \<and> verdict_rounds cid db = [0 .. current_round c - 1]"
      using rounds_in_stepD_Some [OF assms(1,2)] .
    have "verdict_rounds cid db' = [0 .. current_round c - 1] @ [current_round c]"
      using verdict_rounds_append [OF assms(8), of cid] assms(3,4) d by simp
    also have "\<dots> = [0 .. current_round c]"
      using d upto_rec2 [of 0 "current_round c"] by simp
    finally have "verdict_rounds cid db' = [0 .. current_round c' - 1]"
      using assms(6) by simp
    with True x d assms(5,6,7) show ?thesis by simp
  next
    case False
    with h assms(9) have "cases db k = Some x" by simp
    then show ?thesis
      using False assms(1,3,8) rounds_in_stepD_Some [of db k x]
        verdict_rounds_append [of db' db v k] by simp
  qed
qed

lemma no_round0_zero:
  assumes "rounds_in_step db" and "cases db cid = Some c"
    and "get_verdict_by_round cid 0 db = None"
  shows "current_round c = 0"
proof (rule ccontr)
  assume "current_round c \<noteq> 0"
  have d: "0 \<le> current_round c \<and> verdict_rounds cid db = [0 .. current_round c - 1]"
    using rounds_in_stepD_Some [OF assms(1,2)] by simp
  with \<open>current_round c \<noteq> 0\<close> have "0 \<in> set (verdict_rounds cid db)" by simp
  then obtain v where "v \<in> set (verdicts db)" "verdict_case_id v = cid" "verdict_round v = 0"
    by (auto simp: verdict_rounds_def case_verdicts_def)
  with assms(3) show False by (auto simp: get_verdict_by_round_None_iff)
qed

lemma round_not_taken:
  assumes "rounds_in_step db" and "cases db cid = Some c"
  shows "get_verdict_by_round cid (current_round c) db = None"
proof -
  have d: "verdict_rounds cid db = [0 .. current_round c - 1]"
    using rounds_in_stepD_Some [OF assms] by simp
  have "current_round c \<notin> set (verdict_rounds cid db)" unfolding d by simp
  then show ?thesis
    unfolding get_verdict_by_round_None_iff verdict_rounds_def case_verdicts_def by force
qed

section \<open>Every request keeps the rounds in step\<close>

lemma create_case_rounds:
  assumes "rounds_in_step db"
  shows "rounds_in_step (snd (create_case new_id number case_data user_id now db))"
proof (cases "cases db new_id \<noteq> None \<or> (\<exists>c \<in> ran (cases db). case_number c = number)")
  case True
  then show ?thesis using assms by (simp add: create_case_def)
next
  case False
  let ?c = "\<lparr>case_number = number, title = new_title case_data,
                 description = new_description case_data, case_type = new_case_type case_data,
                 jurisdiction = new_jurisdiction case_data, created_by = user_id,
                 status = ''draft'', current_round = 0, max_rounds = 5,
                 updated_at = Some now, finalized_at = None\<rparr>"
  from False have n: "cases db new_id = None" by simp
  have eq: "snd (create_case new_id number case_data user_id now db)
              = db\<lparr>cases := (cases db)(new_id \<mapsto> ?c)\<rparr>"
    using False by (simp add: create_case_def Let_def)
  show ?thesis
    unfolding eq
  proof (rule rounds_in_stepI)
    fix k assume "cases (db\<lparr>cases := (cases db)(new_id \<mapsto> ?c)\<rparr>) k = None"
    then have "cases db k = None" by (simp split: if_splits)
    then show "verdict_rounds k (db\<lparr>cases := (cases db)(new_id \<mapsto> ?c)\<rparr>) = []"
      using rounds_in_stepD_None [OF assms, of k] by (simp add: verdict_rounds_def case_verdicts_def)
  next
    fix k x assume h: "cases (db\<lparr>cases := (cases db)(new_id \<mapsto> ?c)\<rparr>) k = Some x"
    show "0 \<le> current_round x \<and> current_round x \<le> max_rounds x \<and> 1 \<le> max_rounds x
           \<and> verdict_rounds k (db\<lparr>cases := (cases db)(new_id \<mapsto> ?c)\<rparr>) = [0 .. current_round x - 1]"
    proof (cases "k = new_id")
      case True
      with h have "x = ?c" by simp
      with True show ?thesis
        using rounds_in_stepD_None [OF assms n] by (simp add: verdict_rounds_def case_verdicts_def)
    next
      case False
      with h have "cases db k = Some x" by simp
      then show ?thesis
        using rounds_in_stepD_Some [OF assms, of k x] by (simp add: verdict_rounds_def case_verdicts_def)
    qed
  qed
qed

lemma generate_initial_verdict_rounds:
  assumes "rounds_in_step db"
  shows "rounds_in_step (snd (generate_initial_verdict cid e db))"
proof -
  obtain res db' where eq: "generate_initial_verdict cid e db = (res, db')"
    by (cases "generate_initial_verdict cid e db")
  show ?thesis
  proof (cases res)
    case (Inl err)
    with eq have "db' = db \<or> db' = called db" using giv_Inl by blast
    then have "cases db' = cases db \<and> verdicts db' = verdicts db" by (auto simp: called_def)
    with assms eq show ?thesis using rounds_in_step_same [of db db'] by simp
  next
    case (Inr v)
    with eq obtain c where c: "cases db cid = Some c" "get_verdict_by_round cid 0 db = None"
      "verdict_case_id v = cid" "verdict_round v = 0"
      "db' = (called db)\<lparr>verdicts := verdicts db @ [v],
                 cases := (cases db)(cid \<mapsto> c\<lparr>status := ''in_progress'', current_round := 1\<rparr>)\<rparr>"
      using giv_Inr [of cid e db v db'] by blast
    have z: "current_round c = 0" using no_round0_zero [OF assms c(1,2)] .
    have m: "1 \<le> max_rounds c" using rounds_in_stepD_Some [OF assms c(1)] by simp
    have "rounds_in_step db'"
      by (rule rounds_in_step_append [OF assms c(1) c(3),
            where c' = "c\<lparr>status := ''in_progress'', current_round := 1\<rparr>"])
        (use z m c(4,5) in \<open>simp_all add: called_def\<close>)
    with eq show ?thesis by simp
  qed
qed

lemma submit_argument_effect:
  assumes "submit_argument cid side text uid e db = (res, db')"
  shows "(cases db' = cases db \<and> verdicts db' = verdicts db)
         \<or> (\<exists>c v. cases db cid = Some c \<and> status c \<noteq> ''draft''
               \<and> current_round c < max_rounds c
               \<and> verdict_case_id v = cid \<and> verdict_round v = current_round c
               \<and> verdicts db' = verdicts db @ [v]
               \<and> cases db' = (cases db)(cid \<mapsto> c\<lparr>current_round := current_round c + 1\<rparr>))"
proof (cases "cases db cid")
  case None
  with assms show ?thesis by (simp add: submit_argument_def)
next
  case (Some c)
  let ?arg = "\<lparr>arg_case_id = cid, arg_round = current_round c, arg_side = side,
               argument_text = text, submitted_by = uid\<rparr>"
  let ?db1 = "db\<lparr>arguments := arguments db @ [?arg]\<rparr>"
  obtain r2 db2 where g: "generate_verdict_with_arguments cid (current_round c) e ?db1 = (r2, db2)"
    by (cases "generate_verdict_with_arguments cid (current_round c) e ?db1")
  show ?thesis
  proof (cases r2)
    case (Inl err)
    with g have "verdicts db2 = verdicts db \<and> cases db2 = cases db"
      using gvwa_Inl [of cid "current_round c" e ?db1 err db2] by simp
    with assms Some g Inl show ?thesis
      by (auto simp: submit_argument_def Let_def split: if_splits)
  next
    case (Inr v)
    with g have "db2 = (called ?db1)\<lparr>verdicts := verdicts ?db1 @ [v]\<rparr> \<and> verdict_case_id v = cid
       \<and> verdict_round v = current_round c"
      using gvwa_Inr [of cid "current_round c" e ?db1 v db2] by simp
    with assms Some g Inr show ?thesis
      by (auto simp: submit_argument_def Let_def called_def split: if_splits)
  qed
qed

lemma submit_argument_rounds:
  assumes "rounds_in_step db"
  shows "rounds_in_step (snd (submit_argument cid side text uid e db))"
proof -
  obtain res db' where eq: "submit_argument cid side text uid e db = (res, db')"
    by (cases "submit_argument cid side text uid e db")
  from submit_argument_effect [OF eq] show ?thesis
  proof
    assume "cases db' = cases db \<and> verdicts db' = verdicts db"
    with assms eq show ?thesis using rounds_in_step_same [of db db'] by simp
  next
    assume "\<exists>c v. cases db cid = Some c \<and> status c \<noteq> ''draft''
               \<and> current_round c < max_rounds c
               \<and> verdict_case_id v = cid \<and> verdict_round v = current_round c
               \<and> verdicts db' = verdicts db @ [v]
               \<and> cases db' = (cases db)(cid \<mapsto> c\<lparr>current_round := current_round c + 1\<rparr>)"
    then obtain c v where h: "cases db cid = Some c" "current_round c < max_rounds c"
      "verdict_case_id v = cid" "verdict_round v = current_round c"
      "verdicts db' = verdicts db @ [v]"
      "cases db' = (cases db)(cid \<mapsto> c\<lparr>current_round := current_round c + 1\<rparr>)"
      by blast
    have "rounds_in_step db'"
      by (rule rounds_in_step_append [OF assms h(1,3,4,2) _ _ h(5,6)]) simp_all
    with eq show ?thesis by simp
  qed
qed

lemma finalize_case_rounds:
  assumes "rounds_in_step db"
  shows "rounds_in_step (snd (finalize_case cid user now db))"
proof (cases "cases db cid")
  case None
  with assms show ?thesis by (simp add: finalize_case_def)
next
  case (Some c)
  show ?thesis
  proof (cases "created_by c \<noteq> user \<or> status c = ''finalized''
                \<or> get_verdict_by_round cid 0 db = None")
    case True
    with Some assms show ?thesis by (auto simp: finalize_case_def)
  next
    case False
    then have eq: "snd (finalize_case cid user now db)
       = db\<lparr>cases := (cases db)(cid \<mapsto> c\<lparr>status := ''finalized'', finalized_at := Some now\<rparr>)\<rparr>"
      using Some by (auto simp: finalize_case_def Let_def)
    show ?thesis
      unfolding eq
      by (rule rounds_in_step_case_upd [OF assms Some]) simp_all
  qed
qed

lemma update_case_rounds:
  assumes "rounds_in_step db"
  shows "rounds_in_step (snd (update_case cid u user now db))"
proof (cases "get_case_by_id cid user db")
  case None
  with assms show ?thesis by (simp add: update_case_def)
next
  case (Some c)
  then have c: "cases db cid = Some c"
    by (auto simp: get_case_by_id_def split: option.splits if_splits)
  have eq: "snd (update_case cid u user now db)
       = db\<lparr>cases := (cases db)(cid \<mapsto> apply_update u now c)\<rparr>"
    using Some by (simp add: update_case_def Let_def)
  show ?thesis
    unfolding eq
    by (rule rounds_in_step_case_upd [OF assms c]) (simp_all add: apply_update_def)
qed

lemma step_rounds: "rounds_in_step db \<Longrightarrow> rounds_in_step (step req db)"
proof (cases req)
  case (ChangeDocuments docs)
  assume "rounds_in_step db"
  then show ?thesis
    using ChangeDocuments rounds_in_step_same [of db "db\<lparr>documents := docs\<rparr>"] by simp
qed (simp_all add: create_case_rounds generate_initial_verdict_rounds submit_argument_rounds
      finalize_case_rounds update_case_rounds)

lemma empty_store_rounds: "rounds_in_step empty_store"
  by (simp add: rounds_in_step_def empty_store_def verdict_rounds_def case_verdicts_def)

lemma run_rounds: "rounds_in_step db \<Longrightarrow> rounds_in_step (run reqs db)"
  unfolding run_def by (induction reqs arbitrary: db) (simp_all add: step_rounds)

section \<open>One verdict for a case and a round\<close>

lemma sample_store_reachable: "run sample_history empty_store = sample_store []"
proof -
  let ?data = "\<lparr>new_title = ''Lease dispute'', new_description = None, new_case_type = ''civil'',
         new_jurisdiction = ''India''\<rparr>"
  let ?e = "sample_env (Response (Some (sample_json (JStr ''A'') (JNum (4 / 5)))) (Some 300))"
  have 1: "step (ChangeDocuments sample_docs)
             (step (CreateCase 1 ''CAS-2025-1A2B3C'' ?data 7 0) empty_store)
           = draft_store sample_docs"
    by (simp add: create_case_def empty_store_def draft_store_def sample_case_def Let_def)
  have p: "parse_verdict_json (Some (sample_json (JStr ''A'') (JNum (4 / 5))))
            = Inr (sample_json (JStr ''A'') (JNum (4 / 5)))"
    by (simp add: parse_verdict_json_def sample_json_def required_fields_def dict_get_def)
  have 2: "snd (generate_initial_verdict 1 ?e (draft_store sample_docs))
           = (draft_store sample_docs)\<lparr>verdicts := [sample_verdict 0],
                cases := [1 \<mapsto> sample_case], oracle_calls := 1\<rparr>"
    using giv_success [of "draft_store sample_docs" 1
        "sample_case\<lparr>status := ''draft'', current_round := 0\<rparr>" ?e
        "sample_json (JStr ''A'') (JNum (4 / 5))" "Some 300"] p
    by (simp add: draft_store_def sample_case_def sample_env_def sample_docs_def sample_doc_def
        get_verdict_by_round_def ready_docs_def called_def sample_verdict_def)
  have "run sample_history empty_store
          = step (ChangeDocuments [sample_doc ''A'' (Some ''lease''), sample_doc ''B'' None])
              (step (GenerateInitialVerdict 1 ?e)
                (step (ChangeDocuments sample_docs)
                  (step (CreateCase 1 ''CAS-2025-1A2B3C'' ?data 7 0) empty_store)))"
    unfolding sample_history_def run_def by (simp del: step.simps)
  also have "\<dots> = step (ChangeDocuments [sample_doc ''A'' (Some ''lease''), sample_doc ''B'' None])
              (step (GenerateInitialVerdict 1 ?e) (draft_store sample_docs))"
    unfolding 1 ..
  also have "\<dots> = (draft_store sample_docs)\<lparr>verdicts := [sample_verdict 0],
                cases := [1 \<mapsto> sample_case], oracle_calls := 1,
                documents := [sample_doc ''A'' (Some ''lease''), sample_doc ''B'' None]\<rparr>"
    by (simp only: step.simps 2)
  also have "\<dots> = sample_store []"
    by (simp add: draft_store_def sample_store_def)
  finally show ?thesis .
qed

lemma distinct_filter_le_one: "distinct xs \<Longrightarrow> length (filter (\<lambda>x. x = r) xs) \<le> 1"
  by (induction xs) (auto simp: filter_empty_conv)

lemma verdicts_of_round:
  "map verdict_round (filter (\<lambda>v. verdict_case_id v = cid \<and> verdict_round v = r) (verdicts db))
   = filter (\<lambda>x. x = r) (verdict_rounds cid db)"
  by (simp add: verdict_rounds_def case_verdicts_def filter_map comp_def conj_commute)

lemma rounds_in_step_unique:
  assumes "rounds_in_step db"
  shows "length (filter (\<lambda>v. verdict_case_id v = cid \<and> verdict_round v = r) (verdicts db)) \<le> 1"
proof -
  have "distinct (verdict_rounds cid db)"
  proof (cases "cases db cid")
    case None
    then show ?thesis using rounds_in_stepD_None [OF assms] by simp
  next
    case (Some c)
    then show ?thesis using rounds_in_stepD_Some [OF assms Some] by simp
  qed
  then have "length (filter (\<lambda>x. x = r) (verdict_rounds cid db)) \<le> 1"
    by (rule distinct_filter_le_one)
  then show ?thesis
    using verdicts_of_round [of cid r db, THEN arg_cong, of length] by simp
qed

lemma giv_existing:
  "get_verdict_by_round cid 0 db \<noteq> None \<Longrightarrow>
   generate_initial_verdict cid e db = (Inl VerdictAlreadyExists, db)"
  by (simp add: generate_initial_verdict_def)

text \<open>
  C1.  In every store that the requests can reach from the empty one, a case has at most
  one Verdict for a round, and none yet for its current round: the argument-round path,
  which \<^verbatim>\<open>submit_argument\<close> calls for the current round only, is never run for a round
  whose Verdict exists.  \<^verbatim>\<open>generate_initial_verdict\<close> on a case whose round-0 Verdict
  exists does not return that Verdict: it raises "Round 0 verdict already exists for this
  case" and leaves the store as it was, so that no second Verdict is created.
\<close>

theorem verdict_unique_per_round:
  "(\<forall>cid r. length (filter (\<lambda>v. verdict_case_id v = cid \<and> verdict_round v = r)
                       (verdicts (run reqs empty_store))) \<le> 1)
   \<and> (\<forall>cid c. cases (run reqs empty_store) cid = Some c \<longrightarrow>
         get_verdict_by_round cid (current_round c) (run reqs empty_store) = None)
   \<and> (\<forall>db cid e. get_verdict_by_round cid 0 db \<noteq> None \<longrightarrow>
         generate_initial_verdict cid e db = (Inl VerdictAlreadyExists, db))"
proof -
  have r: "rounds_in_step (run reqs empty_store)"
    by (rule run_rounds [OF empty_store_rounds])
  show ?thesis
    using rounds_in_step_unique [OF r] round_not_taken [OF r] giv_existing by blast
qed

theorem verdict_unique_per_round_witness:
  "length (filter (\<lambda>v. verdict_case_id v = 1 \<and> verdict_round v = 0)
             (verdicts (sample_store []))) = 1
   \<and> cases (sample_store []) 1 = Some sample_case
   \<and> get_verdict_by_round 1 (current_round sample_case) (sample_store []) = None
   \<and> get_verdict_by_round 1 0 (sample_store []) \<noteq> None
   \<and> generate_initial_verdict 1 (sample_env ClientError) (sample_store [])
       = (Inl VerdictAlreadyExists, sample_store [])"
proof -
  note t = verdict_unique_per_round [of sample_history, unfolded sample_store_reachable]
  have c: "cases (sample_store []) 1 = Some sample_case" by (simp add: sample_store_def)
  have v: "get_verdict_by_round 1 0 (sample_store []) \<noteq> None"
    by (simp add: get_verdict_by_round_def sample_store_def sample_verdict_def)
  have l: "length (filter (\<lambda>v. verdict_case_id v = 1 \<and> verdict_round v = 0)
             (verdicts (sample_store []))) = 1"
    by (simp add: sample_store_def sample_verdict_def)
  from t c have n: "get_verdict_by_round 1 (current_round sample_case) (sample_store []) = None"
    by blast
  from t v have g: "generate_initial_verdict 1 (sample_env ClientError) (sample_store [])
       = (Inl VerdictAlreadyExists, sample_store [])"
    by blast
  from c v l n g show ?thesis by simp
qed

theorem existing_verdict_not_returned_counterexample:
  "get_verdict_by_round 1 0 (sample_store []) = Some (sample_verdict 0)
   \<and> generate_initial_verdict 1
        (sample_env (Response (Some (sample_json (JStr ''A'') (JNum (4 / 5)))) (Some 300)))
        (sample_store [])
       = (Inl VerdictAlreadyExists, sample_store [])
   \<and> fst (generate_initial_verdict 1
        (sample_env (Response (Some (sample_json (JStr ''A'') (JNum (4 / 5)))) (Some 300)))
        (sample_store []))
       \<noteq> Inr (sample_verdict 0)"
  by (simp add: generate_initial_verdict_def get_verdict_by_round_def sample_store_def
      sample_verdict_def)

section \<open>The invariant of the round counter\<close>

lemma draft_at_zero_same:
  "draft_at_zero db \<Longrightarrow> cases db' = cases db \<Longrightarrow> draft_at_zero db'"
  by (simp add: draft_at_zero_def)

lemma draft_at_zero_upd:
  assumes "draft_at_zero db" and "cases db' = (cases db)(cid \<mapsto> c')"
    and "status c' = ''draft'' \<longrightarrow> current_round c' = 0"
  shows "draft_at_zero db'"
  using assms by (auto simp: draft_at_zero_def split: if_splits)

lemma create_case_draft:
  assumes "draft_at_zero db"
  shows "draft_at_zero (snd (create_case new_id number case_data user_id now db))"
proof (cases "cases db new_id \<noteq> None \<or> (\<exists>c \<in> ran (cases db). case_number c = number)")
  case True
  then show ?thesis using assms by (simp add: create_case_def)
next
  case False
  show ?thesis
    by (rule draft_at_zero_upd [OF assms, where cid = new_id and c' =
          "\<lparr>case_number = number, title = new_title case_data,
            description = new_description case_data, case_type = new_case_type case_data,
            jurisdiction = new_jurisdiction case_data, created_by = user_id,
            status = ''draft'', current_round = 0, max_rounds = 5,
            updated_at = Some now, finalized_at = None\<rparr>"])
      (use False in \<open>simp_all add: create_case_def Let_def\<close>)
qed

lemma generate_initial_verdict_draft:
  assumes "draft_at_zero db"
  shows "draft_at_zero (snd (generate_initial_verdict cid e db))"
proof -
  obtain res db' where eq: "generate_initial_verdict cid e db = (res, db')"
    by (cases "generate_initial_verdict cid e db")
  show ?thesis
  proof (cases res)
    case (Inl err)
    with eq have "db' = db \<or> db' = called db" using giv_Inl by blast
    then have "cases db' = cases db" by (auto simp: called_def)
    with assms eq show ?thesis using draft_at_zero_same [of db db'] by simp
  next
    case (Inr v)
    with eq obtain c where c:
      "db' = (called db)\<lparr>verdicts := verdicts db @ [v],
                 cases := (cases db)(cid \<mapsto> c\<lparr>status := ''in_progress'', current_round := 1\<rparr>)\<rparr>"
      using giv_Inr [of cid e db v db'] by blast
    have "draft_at_zero db'"
      by (rule draft_at_zero_upd [OF assms, where cid = cid
            and c' = "c\<lparr>status := ''in_progress'', current_round := 1\<rparr>"])
        (simp_all add: c called_def)
    with eq show ?thesis by simp
  qed
qed

lemma submit_argument_draft:
  assumes "draft_at_zero db"
  shows "draft_at_zero (snd (submit_argument cid side text uid e db))"
proof -
  obtain res db' where eq: "submit_argument cid side text uid e db = (res, db')"
    by (cases "submit_argument cid side text uid e db")
  from submit_argument_effect [OF eq] show ?thesis
  proof
    assume "cases db' = cases db \<and> verdicts db' = verdicts db"
    with assms eq show ?thesis using draft_at_zero_same [of db db'] by simp
  next
    assume "\<exists>c v. cases db cid = Some c \<and> status c \<noteq> ''draft''
               \<and> current_round c < max_rounds c
               \<and> verdict_case_id v = cid \<and> verdict_round v = current_round c
               \<and> verdicts db' = verdicts db @ [v]
               \<and> cases db' = (cases db)(cid \<mapsto> c\<lparr>current_round := current_round c + 1\<rparr>)"
    then obtain c where h: "status c \<noteq> ''draft''"
      "cases db' = (cases db)(cid \<mapsto> c\<lparr>current_round := current_round c + 1\<rparr>)"
      by blast
    have "draft_at_zero db'"
      by (rule draft_at_zero_upd [OF assms h(2)]) (simp add: h(1))
    with eq show ?thesis by simp
  qed
qed

lemma finalize_case_draft:
  assumes "draft_at_zero db"
  shows "draft_at_zero (snd (finalize_case cid user now db))"
proof (cases "cases db cid")
  case None
  with assms show ?thesis by (simp add: finalize_case_def)
next
  case (Some c)
  show ?thesis
  proof (cases "created_by c \<noteq> user \<or> status c = ''finalized''
                \<or> get_verdict_by_round cid 0 db = None")
    case True
    with Some assms show ?thesis by (auto simp: finalize_case_def)
  next
    case False
    then have eq: "snd (finalize_case cid user now db)
       = db\<lparr>cases := (cases db)(cid \<mapsto> c\<lparr>status := ''finalized'', finalized_at := Some now\<rparr>)\<rparr>"
      using Some by (auto simp: finalize_case_def Let_def)
    show ?thesis
      unfolding eq
      by (rule draft_at_zero_upd [OF assms, where cid = cid
            and c' = "c\<lparr>status := ''finalized'', finalized_at := Some now\<rparr>"]) simp_all
  qed
qed

lemma update_case_draft:
  assumes "draft_at_zero db" and "set_status u \<noteq> Some ''draft''"
  shows "draft_at_zero (snd (update_case cid u user now db))"
proof (cases "get_case_by_id cid user db")
  case None
  with assms show ?thesis by (simp add: update_case_def)
next
  case (Some c)
  then have c: "cases db cid = Some c"
    by (auto simp: get_case_by_id_def split: option.splits if_splits)
  have eq: "snd (update_case cid u user now db)
       = db\<lparr>cases := (cases db)(cid \<mapsto> apply_update u now c)\<rparr>"
    using Some by (simp add: update_case_def Let_def)
  have z: "status c = ''draft'' \<longrightarrow> current_round c = 0"
    using assms(1) c by (simp add: draft_at_zero_def)
  show ?thesis
    unfolding eq
    by (rule draft_at_zero_upd [OF assms(1), where cid = cid and c' = "apply_update u now c"])
      (use z assms(2) in \<open>auto simp: apply_update_def split: option.splits\<close>)
qed

lemma step_draft:
  "draft_at_zero db \<Longrightarrow> \<not> sets_draft req \<Longrightarrow> draft_at_zero (step req db)"
proof (cases req)
  case (ChangeDocuments docs)
  assume "draft_at_zero db"
  then show ?thesis
    using ChangeDocuments draft_at_zero_same [of db "db\<lparr>documents := docs\<rparr>"] by simp
qed (simp_all add: create_case_draft generate_initial_verdict_draft submit_argument_draft
      finalize_case_draft update_case_draft)

lemma empty_store_draft: "draft_at_zero empty_store"
  by (simp add: draft_at_zero_def empty_store_def)

lemma run_draft:
  "draft_at_zero db \<Longrightarrow> \<forall>req \<in> set reqs. \<not> sets_draft req \<Longrightarrow> draft_at_zero (run reqs db)"
  unfolding run_def by (induction reqs arbitrary: db) (simp_all add: step_draft)

lemma round_invariant_of_steps:
  assumes "rounds_in_step db" and "draft_at_zero db"
  shows "round_invariant db"
  unfolding round_invariant_def case_round_invariant_def
proof (intro allI impI)
  fix cid c
  assume c: "cases db cid = Some c"
  have d: "0 \<le> current_round c \<and> current_round c \<le> max_rounds c
           \<and> verdict_rounds cid db = [0 .. current_round c - 1]"
    using rounds_in_stepD_Some [OF assms(1) c] by simp
  have "length (case_verdicts cid db) = length (verdict_rounds cid db)"
    by (simp add: verdict_rounds_def)
  with d have n: "int (length (case_verdicts cid db)) = current_round c" by simp
  have z: "status c = ''draft'' \<longrightarrow> current_round c = 0"
    using assms(2) c by (simp add: draft_at_zero_def)
  from d n z show "0 \<le> current_round c \<and> current_round c \<le> max_rounds c
     \<and> int (length (case_verdicts cid db))
         = (if status c \<noteq> ''draft'' then current_round c else 0)"
    by simp
qed

text \<open>
  C2.  In every store reached from the empty one by case creation, document changes,
  initial verdict generation, argument submission with its adjudication, finalization and
  case updates that do not set the status to \<open>draft\<close> (the commit of the case row that
  follows a persisted verdict succeeding), every case has
  \<open>0 \<le> current_round \<le> max_rounds\<close>, and its number of Verdicts is \<open>current_round\<close> when its
  status is not \<open>draft\<close> and 0 when it is.  A case update may set any status: setting
  \<open>draft\<close> on a case that has its verdicts breaks the invariant.
\<close>

theorem round_invariant_reachable:
  assumes "\<forall>req \<in> set reqs. \<not> sets_draft req"
  shows "round_invariant (run reqs empty_store)"
  by (rule round_invariant_of_steps
      [OF run_rounds [OF empty_store_rounds] run_draft [OF empty_store_draft assms]])

theorem round_invariant_reachable_witness:
  "case_round_invariant (run sample_history empty_store) 1 sample_case
   \<and> int (length (case_verdicts 1 (run sample_history empty_store))) = current_round sample_case"
proof -
  have h: "\<forall>req \<in> set sample_history. \<not> sets_draft req"
    by (simp add: sample_history_def)
  have r: "round_invariant (sample_store [])"
    using round_invariant_reachable [OF h] by (simp add: sample_store_reachable)
  have c: "cases (sample_store []) 1 = Some sample_case" by (simp add: sample_store_def)
  from r c have i: "case_round_invariant (sample_store []) 1 sample_case"
    by (simp add: round_invariant_def)
  have "int (length (case_verdicts 1 (sample_store []))) = current_round sample_case"
    by (simp add: case_verdicts_def sample_store_def sample_verdict_def sample_case_def)
  with i show ?thesis by (simp add: sample_store_reachable)
qed

theorem update_to_draft_counterexample:
  "\<not> round_invariant
       (run (sample_history @
               [UpdateCase 1 \<lparr>set_title = None, set_description = None, set_case_type = None,
                              set_jurisdiction = None, set_status = Some ''draft''\<rparr> 7 9])
          empty_store)"
proof
  let ?u = "\<lparr>set_title = None, set_description = None, set_case_type = None,
               set_jurisdiction = None, set_status = Some ''draft''\<rparr>"
  let ?db = "run (sample_history @ [UpdateCase 1 ?u 7 9]) empty_store"
  assume inv: "round_invariant ?db"
  have "?db = step (UpdateCase 1 ?u 7 9) (run sample_history empty_store)"
    by (simp add: run_def del: step.simps)
  then have db: "?db = snd (update_case 1 ?u 7 9 (sample_store []))"
    by (simp add: sample_store_reachable)
  have c: "cases ?db 1 = Some (sample_case\<lparr>status := ''draft'', updated_at := Some 9\<rparr>)"
    unfolding db
    by (simp add: update_case_def get_case_by_id_def apply_update_def sample_store_def
        sample_case_def Let_def)
  have v: "case_verdicts 1 ?db = [sample_verdict 0]"
    unfolding db
    by (simp add: update_case_def get_case_by_id_def case_verdicts_def sample_store_def
        sample_case_def sample_verdict_def Let_def)
  from inv c have "case_round_invariant ?db 1 (sample_case\<lparr>status := ''draft'', updated_at := Some 9\<rparr>)"
    unfolding round_invariant_def by blast
  then show False
    unfolding case_round_invariant_def v by simp
qed

section \<open>Finalization\<close>






end
